theory Spec2Isabelle
  imports Complex_Main
begin

section \<open>The train store: line filtering\<close>

text \<open>
  The store of \<^verbatim>\<open>src/store/trainStore.ts\<close> (unnamed part 000). Only the
  \<^verbatim>\<open>activeLines\<close> field is touched by \<^verbatim>\<open>toggleLine\<close>; the value
  \<^verbatim>\<open>null\<close> (show all) is \<open>None\<close>, a JavaScript set of strings is a
  \<open>string set\<close>.
\<close>

definition LINE_GROUPS :: "(string \<times> string list) list" where
  "LINE_GROUPS =
    [(''1/2/3'', [''1'', ''2'', ''3'']),
     (''4/5/6'', [''4'', ''5'', ''6'']),
     (''7'', [''7'']),
     (''A/C/E'', [''A'', ''C'', ''E'']),
     (''B/D/F/M'', [''B'', ''D'', ''F'', ''M'']),
     (''G'', [''G'']),
     (''J/Z'', [''J'', ''Z'']),
     (''L'', [''L'']),
     (''N/Q/R/W'', [''N'', ''Q'', ''R'', ''W'']),
     (''S'', [''S'', ''GS'', ''FS'', ''H'', ''SI''])]"

text \<open>
  \<^verbatim>\<open>LINE_GROUPS[lineGroup] || [lineGroup]\<close>. \<^verbatim>\<open>LINE_GROUPS\<close> is an object
  literal, so the read also finds the properties that every object inherits from
  \<^verbatim>\<open>Object.prototype\<close>; their values are functions (for \<^verbatim>\<open>__proto__\<close> an
  object), which are truthy and are not arrays. For these names \<^verbatim>\<open>routes\<close> is not
  a list, and \<open>groupRoutes\<close> is \<open>None\<close>.
\<close>

definition inheritedProperties :: "string list" where
  "inheritedProperties =
    [''constructor'', ''__proto__'', ''hasOwnProperty'', ''isPrototypeOf'',
     ''propertyIsEnumerable'', ''toLocaleString'', ''toString'', ''valueOf'',
     ''__defineGetter__'', ''__defineSetter__'', ''__lookupGetter__'', ''__lookupSetter__'']"

definition groupRoutes :: "string \<Rightarrow> string list option" where
  "groupRoutes lineGroup =
    (case map_of LINE_GROUPS lineGroup of
       Some routes \<Rightarrow> Some routes
     | None \<Rightarrow> if lineGroup \<in> set inheritedProperties then None else Some [lineGroup])"

text \<open>
  \<^verbatim>\<open>toggleLine\<close> as a function on the \<^verbatim>\<open>activeLines\<close> field: the copy
  \<^verbatim>\<open>newActive\<close>, the test \<^verbatim>\<open>routes.every(r => newActive.has(r))\<close>, the
  deletions or additions, and the collapse of the empty set to \<^verbatim>\<open>null\<close>. When
  \<^verbatim>\<open>routes\<close> is not a list, \<^verbatim>\<open>new Set(routes)\<close> and \<^verbatim>\<open>routes.every\<close> throw a
  TypeError before the store is written: the result is \<open>None\<close>.
\<close>

definition toggleLine :: "string \<Rightarrow> string set option \<Rightarrow> string set option option" where
  "toggleLine lineGroup activeLines =
    (case groupRoutes lineGroup of
       None \<Rightarrow> None
     | Some routes \<Rightarrow>
         (case activeLines of
            None \<Rightarrow> Some (Some (set routes))
          | Some active \<Rightarrow>
              (let newActive = active;
                   allPresent = list_all (\<lambda>r. r \<in> newActive) routes
               in if allPresent then
                    (let newActive' = fold (\<lambda>r s. s - {r}) routes newActive
                     in Some (if newActive' = {} then None else Some newActive'))
                  else Some (Some (fold (\<lambda>r s. insert r s) routes newActive)))))"

definition showAllLines :: "string set option \<Rightarrow> string set option" where
  "showAllLines activeLines = None"

definition showOnlyLine :: "string \<Rightarrow> string set option \<Rightarrow> string set option option" where
  "showOnlyLine lineGroup activeLines =
    (case groupRoutes lineGroup of
       None \<Rightarrow> None
     | Some routes \<Rightarrow> Some (Some (set routes)))"

section \<open>Geometry library\<close>

text \<open>
  The pure functions of the \<^verbatim>\<open>SubwayMap\<close> component (the second half of
  \<^verbatim>\<open>src/components/AlertPanel.tsx\<close>, from line 294 on). A JavaScript number is
  modelled as a \<open>real\<close> (rounding of IEEE doubles is not modelled), the value
  \<^verbatim>\<open>Infinity\<close> of the two search loops by the extra element of \<open>xnum\<close>. A
  coordinate \<^verbatim>\<open>[number, number]\<close> is a pair (longitude, latitude), a polyline a list
  of coordinates. Reading \<^verbatim>\<open>line[i][0]\<close> with \<open>i\<close> out of range throws a
  TypeError in JavaScript; a function that can do so returns an \<open>option\<close>, with
  \<open>None\<close> for the exception.
\<close>

type_synonym coord = "real \<times> real"
type_synonym polyline = "coord list"

datatype xnum = Num real | Infinity

text \<open>\<open>x < y\<close> for a finite \<open>x\<close>, \<open>x + y\<close>, and \<open>x < r\<close> for a finite \<open>r\<close>.\<close>

fun xless :: "real \<Rightarrow> xnum \<Rightarrow> bool" where
  "xless x Infinity = True"
| "xless x (Num y) = (x < y)"

fun xadd :: "xnum \<Rightarrow> xnum \<Rightarrow> xnum" where
  "xadd (Num x) (Num y) = Num (x + y)"
| "xadd _ _ = Infinity"

fun xbelow :: "xnum \<Rightarrow> real \<Rightarrow> bool" where
  "xbelow Infinity r = False"
| "xbelow (Num x) r = (x < r)"

definition ANIMATION_DURATION :: real where
  "ANIMATION_DURATION = 4000"

definition easeOutCubic :: "real \<Rightarrow> real" where
  "easeOutCubic p = 1 - (1 - p) ^ 3"

definition distance :: "coord \<Rightarrow> coord \<Rightarrow> real" where
  "distance a b = (let dx = fst a - fst b; dy = snd a - snd b in sqrt (dx * dx + dy * dy))"

subsection \<open>nearestPointOnLine\<close>

record nearest =
  nearestDist :: xnum
  nearestPoint :: coord
  nearestIndex :: nat
  nearestT :: real

record projection =
  np_point :: coord
  np_index :: nat
  np_t :: real

text \<open>One iteration of the loop \<^verbatim>\<open>for (let i = 0; i < line.length - 1; i++)\<close>.\<close>

definition nearestStep :: "coord \<Rightarrow> polyline \<Rightarrow> nearest \<Rightarrow> nat \<Rightarrow> nearest" where
  "nearestStep point line st i =
    (let a = line ! i;
         b = line ! (i + 1);
         abx = fst b - fst a;
         aby = snd b - snd a;
         apx = fst point - fst a;
         apy = snd point - snd a;
         abLen2 = abx * abx + aby * aby;
         t0 = (if abLen2 > 0 then (apx * abx + apy * aby) / abLen2 else 0);
         t = max 0 (min 1 t0);
         projX = fst a + t * abx;
         projY = snd a + t * aby;
         dist = distance point (projX, projY)
     in if xless dist (nearestDist st)
        then \<lparr>nearestDist = Num dist, nearestPoint = (projX, projY),
              nearestIndex = i, nearestT = t\<rparr>
        else st)"

definition nearestInit :: "coord \<Rightarrow> nearest" where
  "nearestInit point =
    \<lparr>nearestDist = Infinity, nearestPoint = point, nearestIndex = 0, nearestT = 0\<rparr>"

text \<open>
  The loop reads \<^verbatim>\<open>line[i]\<close> and \<^verbatim>\<open>line[i + 1]\<close> for \<open>i + 1 < length line\<close>
  only, so it never throws; on a line of fewer than two points it does not run and
  the initial values are returned.
\<close>

definition nearestPointOnLine :: "coord \<Rightarrow> polyline \<Rightarrow> projection" where
  "nearestPointOnLine point line =
    (let st = foldl (nearestStep point line) (nearestInit point) [0..<length line - 1]
     in \<lparr>np_point = nearestPoint st, np_index = nearestIndex st, np_t = nearestT st\<rparr>)"

subsection \<open>pointAlongLine\<close>

record segment =
  seg_start :: coord
  seg_end :: coord
  seg_dist :: real

text \<open>
  The expression \<^verbatim>\<open>[line[i][0] + t * (line[i + 1][0] - line[i][0]), ...]\<close>, which
  the source writes out for the start point and for each end point.
\<close>

definition pointOnSegment :: "polyline \<Rightarrow> nat \<Rightarrow> real \<Rightarrow> coord" where
  "pointOnSegment line i t =
    (fst (line ! i) + t * (fst (line ! (i + 1)) - fst (line ! i)),
     snd (line ! i) + t * (snd (line ! (i + 1)) - snd (line ! i)))"

definition mkSegment :: "coord \<Rightarrow> coord \<Rightarrow> segment" where
  "mkSegment a b = \<lparr>seg_start = a, seg_end = b, seg_dist = distance a b\<rparr>"

text \<open>The list \<^verbatim>\<open>segments\<close> built by the forward branch and by the backward branch.\<close>

definition forwardSegments :: "polyline \<Rightarrow> nat \<Rightarrow> real \<Rightarrow> nat \<Rightarrow> real \<Rightarrow> segment list" where
  "forwardSegments line startIndex startT endIndex endT =
    (let startPoint = pointOnSegment line startIndex startT;
         firstEnd = line ! (startIndex + 1);
         endPoint = pointOnSegment line endIndex endT
     in [mkSegment startPoint firstEnd]
        @ map (\<lambda>i. mkSegment (line ! i) (line ! (i + 1))) [startIndex + 1..<endIndex]
        @ [mkSegment (line ! endIndex) endPoint])"

definition backwardSegments :: "polyline \<Rightarrow> nat \<Rightarrow> real \<Rightarrow> nat \<Rightarrow> real \<Rightarrow> segment list" where
  "backwardSegments line startIndex startT endIndex endT =
    (let startPoint = pointOnSegment line startIndex startT;
         firstEnd = line ! startIndex;
         endPoint = pointOnSegment line endIndex endT
     in [mkSegment startPoint firstEnd]
        @ map (\<lambda>i. mkSegment (line ! (i + 1)) (line ! i)) (rev [endIndex + 1..<startIndex])
        @ [mkSegment (line ! (endIndex + 1)) endPoint])"

text \<open>
  The loop \<^verbatim>\<open>for (const seg of segments)\<close>: \<open>None\<close> when it ends without a
  \<^verbatim>\<open>return\<close>.
\<close>

fun walkSegments :: "segment list \<Rightarrow> real \<Rightarrow> real \<Rightarrow> coord option" where
  "walkSegments [] targetDist accumulated = None"
| "walkSegments (seg # segs) targetDist accumulated =
    (if accumulated + seg_dist seg \<ge> targetDist then
       (let segProgress =
              (if seg_dist seg > 0 then (targetDist - accumulated) / seg_dist seg else 0)
        in Some (fst (seg_start seg) + segProgress * (fst (seg_end seg) - fst (seg_start seg)),
                 snd (seg_start seg) + segProgress * (snd (seg_end seg) - snd (seg_start seg))))
     else walkSegments segs targetDist (accumulated + seg_dist seg))"

text \<open>
  \<^verbatim>\<open>pointAlongLine\<close>. It reads \<^verbatim>\<open>line[startIndex + 1]\<close> and
  \<^verbatim>\<open>line[endIndex + 1]\<close> on every path through it, and every other index it reads
  is smaller than one of the two: it throws exactly when one of them is out of range.
\<close>

definition pointAlongLine ::
  "polyline \<Rightarrow> nat \<Rightarrow> real \<Rightarrow> nat \<Rightarrow> real \<Rightarrow> real \<Rightarrow> coord option" where
  "pointAlongLine line startIndex startT endIndex endT progress =
    (if length line \<le> startIndex + 1 \<or> length line \<le> endIndex + 1 then None
     else
       (let startPoint = pointOnSegment line startIndex startT in
        if startIndex = endIndex then
          (let endPoint = pointOnSegment line endIndex endT
           in Some (fst startPoint + progress * (fst endPoint - fst startPoint),
                    snd startPoint + progress * (snd endPoint - snd startPoint)))
        else
          (let forward = (endIndex > startIndex \<or> (endIndex = startIndex \<and> endT > startT));
               segments = (if forward
                           then forwardSegments line startIndex startT endIndex endT
                           else backwardSegments line startIndex startT endIndex endT);
               totalDist = sum_list (map seg_dist segments);
               targetDist = progress * totalDist
           in case walkSegments segments targetDist 0 of
                Some c \<Rightarrow> Some c
              | None \<Rightarrow> Some (if segments = [] then startPoint else seg_end (last segments)))))"

subsection \<open>calculateBearing\<close>

text \<open>
  \<^verbatim>\<open>Math.atan2(y, x)\<close> is a library function of the JavaScript runtime. It is the
  angle in \<open>(-\<pi>, \<pi>]\<close> of the point \<open>(x, y)\<close> against the positive x axis, with
  \<^verbatim>\<open>Math.atan2(0, 0) = 0\<close>. The reals have one zero: the sign of a zero argument,
  by which the runtime tells \<^verbatim>\<open>Math.atan2(-0, -1) = -\<pi>\<close> from
  \<^verbatim>\<open>Math.atan2(0, -1) = \<pi>\<close>, is not modelled, and a difference of two equal
  coordinates is taken as \<^verbatim>\<open>+0\<close>, as it is in the runtime.
\<close>

definition atan2 :: "real \<Rightarrow> real \<Rightarrow> real" where
  "atan2 y x =
    (if x > 0 then arctan (y / x)
     else if x < 0 \<and> y \<ge> 0 then arctan (y / x) + pi
     else if x < 0 then arctan (y / x) - pi
     else if y > 0 then pi / 2
     else if y < 0 then - (pi / 2)
     else 0)"

definition calculateBearing :: "coord \<Rightarrow> coord \<Rightarrow> real" where
  "calculateBearing from to =
    (let dx = fst to - fst from;
         dy = snd to - snd from;
         angle = atan2 dx dy * (180 / pi)
     in angle)"

datatype direction = N | S

text \<open>
  \<^verbatim>\<open>getDirectionFromStopId\<close>: \<^verbatim>\<open>undefined\<close> and the empty string are falsy;
  \<^verbatim>\<open>stopId.slice(-1)\<close> is the last character.
\<close>

definition getDirectionFromStopId :: "string option \<Rightarrow> direction option" where
  "getDirectionFromStopId stopId =
    (case stopId of
       None \<Rightarrow> None
     | Some s \<Rightarrow>
         if s = [] then None
         else if last s = CHR ''N'' then Some N
         else if last s = CHR ''S'' then Some S
         else None)"

section \<open>Path resolver\<close>

record pathInfo =
  pi_path :: polyline
  pi_startIndex :: nat
  pi_startT :: real
  pi_endIndex :: nat
  pi_endT :: real

record info =
  info_index :: nat
  info_t :: real
  info_dist :: xnum

record best =
  bestPath :: "polyline option"
  bestStartInfo :: info
  bestEndInfo :: info

type_synonym routePaths = "string \<rightharpoonup> polyline list"

definition bestInit :: best where
  "bestInit =
    \<lparr>bestPath = None,
     bestStartInfo = \<lparr>info_index = 0, info_t = 0, info_dist = Infinity\<rparr>,
     bestEndInfo = \<lparr>info_index = 0, info_t = 0, info_dist = Infinity\<rparr>\<rparr>"

text \<open>The body of \<^verbatim>\<open>for (const path of paths)\<close> in \<^verbatim>\<open>findPathBetweenPoints\<close>.\<close>

definition findStep :: "coord \<Rightarrow> coord \<Rightarrow> best \<Rightarrow> polyline \<Rightarrow> best" where
  "findStep start endp b path =
    (if length path < 2 then b
     else
       (let startNearest = nearestPointOnLine start path;
            endNearest = nearestPointOnLine endp path;
            startDist = distance start (np_point startNearest);
            endDist = distance endp (np_point endNearest);
            totalDist = startDist + endDist
        in if xless totalDist (xadd (info_dist (bestStartInfo b)) (info_dist (bestEndInfo b)))
           then \<lparr>bestPath = Some path,
                 bestStartInfo = \<lparr>info_index = np_index startNearest, info_t = np_t startNearest,
                                  info_dist = Num startDist\<rparr>,
                 bestEndInfo = \<lparr>info_index = np_index endNearest, info_t = np_t endNearest,
                                info_dist = Num endDist\<rparr>\<rparr>
           else b))"

definition findPathBetweenPoints ::
  "routePaths \<Rightarrow> string \<Rightarrow> coord \<Rightarrow> coord \<Rightarrow> pathInfo option" where
  "findPathBetweenPoints rp routeId start endp =
    (case rp routeId of
       None \<Rightarrow> None
     | Some paths \<Rightarrow>
         if paths = [] then None
         else
           (let b = foldl (findStep start endp) bestInit paths
            in case bestPath b of
                 None \<Rightarrow> None
               | Some p \<Rightarrow>
                   if xbelow (info_dist (bestStartInfo b)) 0.005 \<and>
                      xbelow (info_dist (bestEndInfo b)) 0.005
                   then Some \<lparr>pi_path = p,
                              pi_startIndex = info_index (bestStartInfo b),
                              pi_startT = info_t (bestStartInfo b),
                              pi_endIndex = info_index (bestEndInfo b),
                              pi_endT = info_t (bestEndInfo b)\<rparr>
                   else None))"

section \<open>Animation state store and reconciliation\<close>

datatype status = IN_TRANSIT | STOPPED | INCOMING

text \<open>The fields of \<^verbatim>\<open>Train\<close> that the component reads.\<close>

record Train =
  trainId :: string
  routeId :: string
  latitude :: real
  longitude :: real
  trainStatus :: status
  currentStopId :: "string option"

text \<open>
  \<^verbatim>\<open>TrainAnimation\<close>. Its optional fields \<^verbatim>\<open>path\<close>, \<^verbatim>\<open>startIndex\<close>,
  \<^verbatim>\<open>startT\<close>, \<^verbatim>\<open>endIndex\<close>, \<^verbatim>\<open>endT\<close> are set together or not at all by
  the two places that build a record, so they are one optional \<open>pathInfo\<close>.
\<close>

record TrainAnimation =
  startPos :: coord
  endPos :: coord
  startTime :: real
  animRouteId :: string
  animPath :: "pathInfo option"

text \<open>The two mutable maps \<^verbatim>\<open>trainAnimations\<close> and \<^verbatim>\<open>currentPositions\<close>.\<close>

record store =
  trainAnimations :: "string \<rightharpoonup> TrainAnimation"
  currentPositions :: "string \<rightharpoonup> coord"

definition emptyStore :: store where
  "emptyStore = \<lparr>trainAnimations = Map.empty, currentPositions = Map.empty\<rparr>"

text \<open>
  The position of an animation at time \<open>now\<close>: eased progress, then
  \<^verbatim>\<open>pointAlongLine\<close> for a record with a path and the straight line otherwise. The
  source writes this computation out in the reconciliation effect and again in
  \<^verbatim>\<open>animate\<close>.
\<close>

definition animProgress :: "real \<Rightarrow> TrainAnimation \<Rightarrow> real" where
  "animProgress now anim =
    (let elapsed = now - startTime anim in min (elapsed / ANIMATION_DURATION) 1)"

definition sampleAnimation :: "real \<Rightarrow> TrainAnimation \<Rightarrow> coord option" where
  "sampleAnimation now anim =
    (let easedProgress = easeOutCubic (animProgress now anim) in
     case animPath anim of
       Some p \<Rightarrow>
         pointAlongLine (pi_path p) (pi_startIndex p) (pi_startT p) (pi_endIndex p) (pi_endT p)
           easedProgress
     | None \<Rightarrow>
         Some (fst (startPos anim) + (fst (endPos anim) - fst (startPos anim)) * easedProgress,
               snd (startPos anim) + (snd (endPos anim) - snd (startPos anim)) * easedProgress))"

text \<open>The variable \<^verbatim>\<open>startPos\<close> of the reconciliation effect.\<close>

definition startPosOf :: "real \<Rightarrow> store \<Rightarrow> Train \<Rightarrow> coord option" where
  "startPosOf now st train =
    (let newPos = (longitude train, latitude train) in
     case trainAnimations st (trainId train) of
       Some existingAnim \<Rightarrow> sampleAnimation now existingAnim
     | None \<Rightarrow>
         (case currentPositions st (trainId train) of
            Some currentPos \<Rightarrow> Some currentPos
          | None \<Rightarrow> Some newPos))"

text \<open>The early \<^verbatim>\<open>return\<close> of the callback when the position did not change.\<close>

definition unchanged :: "store \<Rightarrow> Train \<Rightarrow> bool" where
  "unchanged st train =
    (case currentPositions st (trainId train) of
       Some currentPos \<Rightarrow>
         \<bar>fst currentPos - longitude train\<bar> < 0.000001 \<and>
         \<bar>snd currentPos - latitude train\<bar> < 0.000001
     | None \<Rightarrow> False)"

text \<open>The callback of \<^verbatim>\<open>filteredTrains.forEach\<close> in the reconciliation effect.\<close>

definition reconcileTrain :: "routePaths \<Rightarrow> real \<Rightarrow> store \<Rightarrow> Train \<Rightarrow> store option" where
  "reconcileTrain rp now st train =
    (let newPos = (longitude train, latitude train) in
     if unchanged st train then Some st
     else
       (case startPosOf now st train of
          None \<Rightarrow> None
        | Some startPos' \<Rightarrow>
            (let dist = distance startPos' newPos in
             if dist > 0.02 then
               Some (st\<lparr>currentPositions := (currentPositions st)(trainId train \<mapsto> newPos),
                        trainAnimations := (trainAnimations st)(trainId train := None)\<rparr>)
             else if dist > 0.00001 then
               Some (st\<lparr>trainAnimations := (trainAnimations st)(trainId train \<mapsto>
                        \<lparr>startPos = startPos', endPos = newPos, startTime = now,
                         animRouteId = routeId train,
                         animPath = findPathBetweenPoints rp (routeId train) startPos' newPos\<rparr>)\<rparr>)
             else Some st)))"

fun reconcileTrains :: "routePaths \<Rightarrow> real \<Rightarrow> store \<Rightarrow> Train list \<Rightarrow> store option" where
  "reconcileTrains rp now st [] = Some st"
| "reconcileTrains rp now st (train # trains) =
    (case reconcileTrain rp now st train of
       None \<Rightarrow> None
     | Some st' \<Rightarrow> reconcileTrains rp now st' trains)"

text \<open>
  The clean-up \<^verbatim>\<open>trainAnimations.current.forEach((_, id) => ...)\<close>: it visits the
  ids that have an animation record, and deletes from both maps those that are not
  in the batch.
\<close>

definition cleanup :: "Train list \<Rightarrow> store \<Rightarrow> store" where
  "cleanup filteredTrains st =
    (let currentIds = set (map trainId filteredTrains);
         stale = (\<lambda>i. trainAnimations st i \<noteq> None \<and> i \<notin> currentIds)
     in \<lparr>trainAnimations = (\<lambda>i. if stale i then None else trainAnimations st i),
         currentPositions = (\<lambda>i. if stale i then None else currentPositions st i)\<rparr>)"

definition reconcile :: "routePaths \<Rightarrow> real \<Rightarrow> Train list \<Rightarrow> store \<Rightarrow> store option" where
  "reconcile rp now filteredTrains st =
    (case reconcileTrains rp now st filteredTrains of
       None \<Rightarrow> None
     | Some st' \<Rightarrow> Some (cleanup filteredTrains st'))"

text \<open>\<^verbatim>\<open>filteredTrains\<close>, the batch both callbacks run over.\<close>

definition filterTrains :: "string set option \<Rightarrow> Train list \<Rightarrow> Train list" where
  "filterTrains activeLines trains =
    (case activeLines of
       None \<Rightarrow> trains
     | Some active \<Rightarrow> filter (\<lambda>t. routeId t \<in> active) trains)"

section \<open>Frame producer\<close>

text \<open>
  A render record: the \<^verbatim>\<open>Feature\<close> built for a train, without its colour. The
  property \<^verbatim>\<open>bearing\<close> is present only when the variable \<^verbatim>\<open>bearing\<close> is not
  null, and then holds \<^verbatim>\<open>bearing - 90\<close>.
\<close>

record feature =
  f_id :: string
  f_routeId :: string
  f_status :: status
  f_coordinates :: coord
  f_bearing :: "real option"
  f_direction :: "direction option"

text \<open>
  The two vertices \<^verbatim>\<open>fromPt\<close>, \<^verbatim>\<open>toPt\<close> chosen for an index, the bearing
  between them, and the reversal for \<^verbatim>\<open>'S'\<close>. \<open>None\<close> is the TypeError of a read
  out of range.
\<close>

definition tangentBearing :: "polyline \<Rightarrow> nat \<Rightarrow> direction option \<Rightarrow> real option" where
  "tangentBearing path idx dir =
    (let pts = (if int idx < int (length path) - 1
                then Some (path ! idx, path ! (idx + 1))
                else if 1 \<le> idx \<and> idx < length path
                then Some (path ! (idx - 1), path ! idx)
                else None)
     in case pts of
          None \<Rightarrow> None
        | Some (fromPt, toPt) \<Rightarrow>
            (let bearing = calculateBearing fromPt toPt
             in Some (if dir = Some S then bearing + 180 else bearing)))"

text \<open>
  The fallback loop over the paths of the route, left at the first path within
  0.005 of the position. The outer \<open>option\<close> is the exception, the inner one the
  value \<^verbatim>\<open>null\<close>.
\<close>

fun fallbackBearing :: "coord \<Rightarrow> direction option \<Rightarrow> polyline list \<Rightarrow> real option option" where
  "fallbackBearing coords dir [] = Some None"
| "fallbackBearing coords dir (path # paths) =
    (if length path < 2 then fallbackBearing coords dir paths
     else
       (let nearest = nearestPointOnLine coords path;
            dist = distance coords (np_point nearest)
        in if dist < 0.005 then
             (case tangentBearing path (np_index nearest) dir of
                None \<Rightarrow> None
              | Some b \<Rightarrow> Some (Some b))
           else fallbackBearing coords dir paths))"

text \<open>The variable \<^verbatim>\<open>bearing\<close> of the callback, computed on the store as updated.\<close>

definition trainBearing ::
  "routePaths \<Rightarrow> store \<Rightarrow> Train \<Rightarrow> coord \<Rightarrow> real option option" where
  "trainBearing rp st train coords =
    (let trainAnim = trainAnimations st (trainId train);
         dir = getDirectionFromStopId (currentStopId train);
         livePath = (case trainAnim of
                       None \<Rightarrow> None
                     | Some a \<Rightarrow>
                         (case animPath a of
                            None \<Rightarrow> None
                          | Some p \<Rightarrow> if length (pi_path p) \<ge> 2 then Some (pi_path p) else None))
     in case livePath of
          Some path \<Rightarrow>
            (let nearest = nearestPointOnLine coords path
             in case tangentBearing path (np_index nearest) dir of
                  None \<Rightarrow> None
                | Some b \<Rightarrow> Some (Some b))
        | None \<Rightarrow>
            if dir \<noteq> None then
              (case rp (routeId train) of
                 None \<Rightarrow> Some None
               | Some paths \<Rightarrow> fallbackBearing coords dir paths)
            else Some None)"

text \<open>
  The position \<^verbatim>\<open>coords\<close> of a train and the store after the first half of the
  callback of \<^verbatim>\<open>filteredTrains.map\<close> in \<^verbatim>\<open>animate\<close>.
\<close>

definition trainCoords :: "real \<Rightarrow> store \<Rightarrow> Train \<Rightarrow> (coord \<times> store) option" where
  "trainCoords now st train =
    (case trainAnimations st (trainId train) of
       Some anim \<Rightarrow>
         (case sampleAnimation now anim of
            None \<Rightarrow> None
          | Some coords \<Rightarrow>
              Some (coords,
                    if animProgress now anim \<ge> 1
                    then st\<lparr>currentPositions := (currentPositions st)(trainId train \<mapsto> endPos anim),
                            trainAnimations := (trainAnimations st)(trainId train := None)\<rparr>
                    else st))
     | None \<Rightarrow>
         (let coords = (case currentPositions st (trainId train) of
                          Some c \<Rightarrow> c
                        | None \<Rightarrow> (longitude train, latitude train))
          in Some (coords,
                   st\<lparr>currentPositions := (currentPositions st)(trainId train \<mapsto> coords)\<rparr>)))"

definition animateTrain ::
  "routePaths \<Rightarrow> real \<Rightarrow> store \<Rightarrow> Train \<Rightarrow> (feature \<times> store) option" where
  "animateTrain rp now st train =
    (case trainCoords now st train of
       None \<Rightarrow> None
     | Some (coords, st') \<Rightarrow>
         (case trainBearing rp st' train coords of
            None \<Rightarrow> None
          | Some bearing \<Rightarrow>
              Some (\<lparr>f_id = trainId train, f_routeId = routeId train,
                     f_status = trainStatus train, f_coordinates = coords,
                     f_bearing = map_option (\<lambda>b. b - 90) bearing,
                     f_direction = getDirectionFromStopId (currentStopId train)\<rparr>,
                    st')))"

text \<open>
  One frame, once the map source exists: the list \<^verbatim>\<open>features\<close> given to the
  renderer and the store the frame leaves behind.
\<close>

fun animate :: "routePaths \<Rightarrow> real \<Rightarrow> store \<Rightarrow> Train list \<Rightarrow> (feature list \<times> store) option" where
  "animate rp now st [] = Some ([], st)"
| "animate rp now st (train # trains) =
    (case animateTrain rp now st train of
       None \<Rightarrow> None
     | Some (f, st') \<Rightarrow>
         (case animate rp now st' trains of
            None \<Rightarrow> None
          | Some (fs, st'') \<Rightarrow> Some (f # fs, st'')))"

section \<open>The projection over a rounded arithmetic\<close>













section \<open>Notions used in the statements\<close>

text \<open>
  The point at parameter \<open>s\<close> of the segment from \<open>a\<close> to \<open>b\<close>, and the parameter
  of the orthogonal projection of a point onto the line through \<open>a\<close> and \<open>b\<close>,
  clamped to \<open>[0, 1]\<close> (0 on a segment of length 0).
\<close>

definition along :: "coord \<Rightarrow> coord \<Rightarrow> real \<Rightarrow> coord" where
  "along a b s = (fst a + s * (fst b - fst a), snd a + s * (snd b - snd a))"

definition clampedT :: "coord \<Rightarrow> coord \<Rightarrow> coord \<Rightarrow> real" where
  "clampedT point a b =
    (let abx = fst b - fst a; aby = snd b - snd a;
         apx = fst point - fst a; apy = snd point - snd a;
         abLen2 = abx * abx + aby * aby
     in max 0 (min 1 (if abLen2 > 0 then (apx * abx + apy * aby) / abLen2 else 0)))"

definition segmentProjection :: "coord \<Rightarrow> polyline \<Rightarrow> nat \<Rightarrow> coord" where
  "segmentProjection point line i =
    along (line ! i) (line ! (i + 1)) (clampedT point (line ! i) (line ! (i + 1)))"

text \<open>
  The invariant of the loop of \<^verbatim>\<open>nearestPointOnLine\<close> after \<open>n > 0\<close> segments:
  the state holds the first of the nearest projections seen.
\<close>

definition nearestInv :: "coord \<Rightarrow> polyline \<Rightarrow> nat \<Rightarrow> nearest \<Rightarrow> bool" where
  "nearestInv point line n st \<longleftrightarrow>
    nearestIndex st < n \<and>
    nearestT st = clampedT point (line ! nearestIndex st) (line ! (nearestIndex st + 1)) \<and>
    nearestPoint st = segmentProjection point line (nearestIndex st) \<and>
    nearestDist st = Num (distance point (nearestPoint st)) \<and>
    (\<forall>i<n. distance point (nearestPoint st) \<le> distance point (segmentProjection point line i)) \<and>
    (\<forall>i<nearestIndex st.
        distance point (nearestPoint st) < distance point (segmentProjection point line i))"

text \<open>
  A list of segments is a chain when each holds the distance between its two ends
  and starts where the one before it ends.
\<close>

fun chain :: "segment list \<Rightarrow> bool" where
  "chain [] = True"
| "chain (s # ss) =
    (seg_dist s = distance (seg_start s) (seg_end s) \<and>
     (case ss of [] \<Rightarrow> True | s' # _ \<Rightarrow> seg_end s = seg_start s') \<and>
     chain ss)"


definition pathSegments :: "polyline \<Rightarrow> nat \<Rightarrow> real \<Rightarrow> nat \<Rightarrow> real \<Rightarrow> segment list" where
  "pathSegments line startIndex startT endIndex endT =
    (if endIndex > startIndex \<or> (endIndex = startIndex \<and> endT > startT)
     then forwardSegments line startIndex startT endIndex endT
     else backwardSegments line startIndex startT endIndex endT)"



text \<open>
  The resolver in the words of the specification: the score of a candidate polyline
  is the sum of the two projection distances; \<open>bestCandidate\<close> is the first element
  of a list with the least value; \<open>resolve\<close> takes the best of the polylines of the
  route with at least two points and accepts it when both distances are below
  0.005.
\<close>

definition score :: "coord \<Rightarrow> coord \<Rightarrow> polyline \<Rightarrow> real" where
  "score start endp path =
    distance start (np_point (nearestPointOnLine start path)) +
    distance endp (np_point (nearestPointOnLine endp path))"

fun bestCandidate :: "('a \<Rightarrow> real) \<Rightarrow> 'a list \<Rightarrow> 'a option" where
  "bestCandidate f [] = None"
| "bestCandidate f (x # xs) =
    (case bestCandidate f xs of
       None \<Rightarrow> Some x
     | Some y \<Rightarrow> if f x \<le> f y then Some x else Some y)"

definition pathsFor :: "routePaths \<Rightarrow> string \<Rightarrow> polyline list" where
  "pathsFor rp rid = (case rp rid of None \<Rightarrow> [] | Some paths \<Rightarrow> paths)"

definition resolved :: "coord \<Rightarrow> coord \<Rightarrow> polyline \<Rightarrow> pathInfo" where
  "resolved start endp p =
    \<lparr>pi_path = p,
     pi_startIndex = np_index (nearestPointOnLine start p),
     pi_startT = np_t (nearestPointOnLine start p),
     pi_endIndex = np_index (nearestPointOnLine endp p),
     pi_endT = np_t (nearestPointOnLine endp p)\<rparr>"

definition resolve :: "routePaths \<Rightarrow> string \<Rightarrow> coord \<Rightarrow> coord \<Rightarrow> pathInfo option" where
  "resolve rp rid start endp =
    (case bestCandidate (score start endp) (filter (\<lambda>p. 2 \<le> length p) (pathsFor rp rid)) of
       None \<Rightarrow> None
     | Some p \<Rightarrow>
         if distance start (np_point (nearestPointOnLine start p)) < 0.005 \<and>
            distance endp (np_point (nearestPointOnLine endp p)) < 0.005
         then Some (resolved start endp p)
         else None)"

text \<open>The state of the loop of \<^verbatim>\<open>findPathBetweenPoints\<close> that has kept the polyline \<open>p\<close>.\<close>

definition bestOf :: "coord \<Rightarrow> coord \<Rightarrow> polyline \<Rightarrow> best" where
  "bestOf start endp p =
    \<lparr>bestPath = Some p,
     bestStartInfo = \<lparr>info_index = np_index (nearestPointOnLine start p),
                      info_t = np_t (nearestPointOnLine start p),
                      info_dist = Num (distance start (np_point (nearestPointOnLine start p)))\<rparr>,
     bestEndInfo = \<lparr>info_index = np_index (nearestPointOnLine endp p),
                    info_t = np_t (nearestPointOnLine endp p),
                    info_dist = Num (distance endp (np_point (nearestPointOnLine endp p)))\<rparr>\<rparr>"

text \<open>
  The bearing of a train on a live path: the direction from the first to the second
  vertex of the segment onto which its position projects, turned by 180 degrees for
  the direction hint \<open>S\<close>.
\<close>

definition liveBearing :: "polyline \<Rightarrow> coord \<Rightarrow> direction option \<Rightarrow> real" where
  "liveBearing path coords dir =
    (let idx = np_index (nearestPointOnLine coords path);
         tangent = calculateBearing (path ! idx) (path ! (idx + 1))
     in if dir = Some S then tangent + 180 else tangent)"



text \<open>
  Invariants of the animation store. A path record is well formed when its polyline
  has at least two points and both segment indices are in range; an animation record
  when its two ends are at most 0.02 apart and its path, if any, is well formed.
\<close>

definition pathOk :: "pathInfo \<Rightarrow> bool" where
  "pathOk p \<longleftrightarrow>
    2 \<le> length (pi_path p) \<and>
    pi_startIndex p + 1 < length (pi_path p) \<and>
    pi_endIndex p + 1 < length (pi_path p)"

definition animOk :: "TrainAnimation \<Rightarrow> bool" where
  "animOk a \<longleftrightarrow>
    distance (startPos a) (endPos a) \<le> 0.02 \<and>
    (case animPath a of None \<Rightarrow> True | Some p \<Rightarrow> pathOk p)"

definition storeOk :: "store \<Rightarrow> bool" where
  "storeOk st \<longleftrightarrow> (\<forall>i a. trainAnimations st i = Some a \<longrightarrow> animOk a)"

text \<open>
  A snapshot is negligible for a store when the position computed as the start of the
  next leg is within 0.00001 of the reported position.
\<close>

definition negligible :: "real \<Rightarrow> store \<Rightarrow> Train \<Rightarrow> bool" where
  "negligible now st train =
    (case startPosOf now st train of
       None \<Rightarrow> False
     | Some cur \<Rightarrow> distance cur (longitude train, latitude train) \<le> 0.00001)"

text \<open>
  The stores that the two callbacks reach from the empty store, for fixed route
  geometry: any number of reconciliations and frames, at any times, over any batches.
  A callback that throws is \<open>None\<close> and gives no step; on a store reached neither
  callback throws (lemmas \<open>reconcile_ok\<close>, \<open>animate_ok\<close> and \<open>reachable_storeOk\<close>).
\<close>

inductive reachable :: "routePaths \<Rightarrow> store \<Rightarrow> bool" for rp :: routePaths where
  reachable_init: "reachable rp emptyStore"
| reachable_reconcile:
    "reachable rp st \<Longrightarrow> reconcile rp now trains st = Some st' \<Longrightarrow> reachable rp st'"
| reachable_animate:
    "reachable rp st \<Longrightarrow> animate rp now st trains = Some (fs, st') \<Longrightarrow> reachable rp st'"

section \<open>Line filtering: theorems\<close>

lemma fold_delete_eq: "fold (\<lambda>r s. s - {r}) rs A = A - set rs"
  by (induction rs arbitrary: A) auto

lemma groupRoutes_Some:
  "g \<notin> set inheritedProperties \<Longrightarrow> \<exists>routes. groupRoutes g = Some routes"
  by (simp add: groupRoutes_def split: option.splits)

lemma toggleLine_inherited: "toggleLine ''constructor'' None = None"
  by (simp add: toggleLine_def groupRoutes_def LINE_GROUPS_def inheritedProperties_def)

text \<open>
  C10. For a line-group label (any string that is not the name of a property inherited
  from \<^verbatim>\<open>Object.prototype\<close>), from the show-all state, toggling the same label
  twice gives the show-all state again: the first call activates exactly the routes
  of the group, the second removes them all and the empty set collapses to \<open>None\<close>.
\<close>

theorem toggleLine_twice_show_all:
  assumes "g \<notin> set inheritedProperties"
  shows "\<exists>routes. groupRoutes g = Some routes \<and>
     toggleLine g None = Some (Some (set routes)) \<and>
     toggleLine g (Some (set routes)) = Some None \<and>
     Option.bind (toggleLine g None) (toggleLine g) = Some None"
proof -
  from groupRoutes_Some[OF assms] obtain routes where r: "groupRoutes g = Some routes" ..
  have 1: "toggleLine g None = Some (Some (set routes))"
    by (simp add: toggleLine_def r)
  have 2: "toggleLine g (Some (set routes)) = Some None"
    by (simp add: toggleLine_def r Let_def list_all_iff fold_delete_eq)
  from r 1 2 show ?thesis by simp
qed

theorem toggleLine_twice_show_all_witness:
  "''A/C/E'' \<notin> set inheritedProperties \<and>
   toggleLine ''A/C/E'' None = Some (Some {''A'', ''C'', ''E''}) \<and>
   toggleLine ''A/C/E'' (Some {''A'', ''C'', ''E''}) = Some None \<and>
   Option.bind (toggleLine ''A/C/E'' None) (toggleLine ''A/C/E'') = Some None"
proof -
  have h: "''A/C/E'' \<notin> set inheritedProperties"
    by (simp add: inheritedProperties_def)
  have g: "groupRoutes ''A/C/E'' = Some [''A'', ''C'', ''E'']"
    by (simp add: groupRoutes_def LINE_GROUPS_def)
  from toggleLine_twice_show_all [OF h] g h show ?thesis by auto
qed

section \<open>Geometry: distance and projection\<close>

lemma distance_nonneg: "0 \<le> distance a b"
  by (simp add: distance_def Let_def)

lemma distance_sq: "(distance a b)\<^sup>2 = (fst a - fst b)\<^sup>2 + (snd a - snd b)\<^sup>2"
  by (simp add: distance_def Let_def power2_eq_square)

lemma distance_le_iff:
  "distance p a \<le> distance p b \<longleftrightarrow>
   (fst p - fst a)\<^sup>2 + (snd p - snd a)\<^sup>2 \<le> (fst p - fst b)\<^sup>2 + (snd p - snd b)\<^sup>2"
  by (simp add: distance_def Let_def power2_eq_square)

lemma quad_min:
  fixes L D s t0 :: real
  assumes L: "0 < L" and D: "D = t0 * L" and s: "0 \<le> s" "s \<le> 1"
  defines "t \<equiv> max 0 (min 1 t0)"
  shows "t * t * L - 2 * t * D \<le> s * s * L - 2 * s * D"
proof -
  have eq: "(s * s * L - 2 * s * D) - (t * t * L - 2 * t * D) = L * ((s - t) * (s + t - 2 * t0))"
    by (simp add: D algebra_simps)
  have "0 \<le> (s - t) * (s + t - 2 * t0)"
  proof -
    consider "t0 < 0" | "0 \<le> t0" "t0 \<le> 1" | "1 < t0" by linarith
    then show ?thesis
    proof cases
      case 1
      then have "t = 0" by (simp add: t_def)
      with 1 s show ?thesis by (simp add: mult_nonneg_nonneg)
    next
      case 2
      then have "t = t0" by (simp add: t_def)
      then have "(s - t) * (s + t - 2 * t0) = (s - t0) * (s - t0)" by simp
      then show ?thesis by simp
    next
      case 3
      then have "t = 1" by (simp add: t_def)
      with 3 s show ?thesis by (simp add: mult_nonpos_nonpos)
    qed
  qed
  with L have "0 \<le> L * ((s - t) * (s + t - 2 * t0))" by simp
  with eq show ?thesis by linarith
qed

lemma closest_on_segment:
  assumes "0 \<le> s" "s \<le> 1"
  shows "distance point (along a b (clampedT point a b)) \<le> distance point (along a b s)"
proof -
  define abx aby apx apy where "abx = fst b - fst a" and "aby = snd b - snd a"
    and "apx = fst point - fst a" and "apy = snd point - snd a"
  define L where "L = abx * abx + aby * aby"
  define D where "D = apx * abx + apy * aby"
  define t where "t = clampedT point a b"
  have t_eq: "t = max 0 (min 1 (if L > 0 then D / L else 0))"
    by (simp add: t_def clampedT_def Let_def L_def D_def abx_def aby_def apx_def apy_def)
  have expand: "(fst point - fst (along a b u))\<^sup>2 + (snd point - snd (along a b u))\<^sup>2
      = (apx * apx + apy * apy) + (u * u * L - 2 * u * D)" for u
    by (simp add: along_def L_def D_def abx_def aby_def apx_def apy_def power2_eq_square algebra_simps)
  have "t * t * L - 2 * t * D \<le> s * s * L - 2 * s * D"
  proof (cases "0 < L")
    case True
    then have "D = (D / L) * L" by simp
    from quad_min[OF True this assms] show ?thesis using True by (simp add: t_eq)
  next
    case False
    have "0 \<le> L" by (simp add: L_def)
    with False have L0: "L = 0" by simp
    then have "abx = 0" "aby = 0" unfolding L_def
      by (metis add_nonneg_eq_0_iff zero_le_square mult_eq_0_iff)+
    then have "D = 0" by (simp add: D_def)
    then show ?thesis using L0 by simp
  qed
  then show ?thesis
    unfolding distance_le_iff t_def[symmetric] expand by simp
qed

lemma clampedT_range: "0 \<le> clampedT point a b \<and> clampedT point a b \<le> 1"
  by (simp add: clampedT_def Let_def)

lemma nearestStep_alt:
  "nearestStep point line st i =
    (if xless (distance point (segmentProjection point line i)) (nearestDist st)
     then \<lparr>nearestDist = Num (distance point (segmentProjection point line i)),
           nearestPoint = segmentProjection point line i,
           nearestIndex = i,
           nearestT = clampedT point (line ! i) (line ! (i + 1))\<rparr>
     else st)"
  by (simp only: nearestStep_def segmentProjection_def along_def clampedT_def Let_def)

lemma nearestLoop_inv:
  "0 < n \<Longrightarrow>
   nearestInv point line n (foldl (nearestStep point line) (nearestInit point) [0..<n])"
proof (induction n)
  case 0
  then show ?case by simp
next
  case (Suc n)
  show ?case
  proof (cases "n = 0")
    case True
    then show ?thesis
      by (simp add: nearestInv_def nearestStep_alt nearestInit_def)
  next
    case False
    then have IH: "nearestInv point line n (foldl (nearestStep point line) (nearestInit point) [0..<n])"
      using Suc.IH by simp
    define st where "st = foldl (nearestStep point line) (nearestInit point) [0..<n]"
    have step: "foldl (nearestStep point line) (nearestInit point) [0..<Suc n]
        = nearestStep point line st n"
      by (simp add: st_def)
    from IH have inv: "nearestInv point line n st" by (simp add: st_def)
    show ?thesis
    proof (cases "distance point (segmentProjection point line n) < distance point (nearestPoint st)")
      case True
      with inv have "nearestStep point line st n =
        \<lparr>nearestDist = Num (distance point (segmentProjection point line n)),
         nearestPoint = segmentProjection point line n,
         nearestIndex = n,
         nearestT = clampedT point (line ! n) (line ! (n + 1))\<rparr>"
        by (simp add: nearestStep_alt nearestInv_def)
      moreover have "\<forall>i<n. distance point (segmentProjection point line n)
                < distance point (segmentProjection point line i)"
        using inv True by (fastforce simp: nearestInv_def)
      ultimately show ?thesis
        unfolding step by (auto simp: nearestInv_def less_Suc_eq intro: less_imp_le)
    next
      case False
      with inv have same: "nearestStep point line st n = st"
        by (simp add: nearestStep_alt nearestInv_def)
      show ?thesis
        unfolding step same using inv False
        by (auto simp: nearestInv_def less_Suc_eq)
    qed
  qed
qed

lemma nearestPointOnLine_inv:
  assumes "2 \<le> length line"
  obtains st where "nearestInv point line (length line - 1) st"
    and "np_point (nearestPointOnLine point line) = nearestPoint st"
    and "np_index (nearestPointOnLine point line) = nearestIndex st"
    and "np_t (nearestPointOnLine point line) = nearestT st"
proof -
  have "0 < length line - 1" using assms by simp
  from nearestLoop_inv[OF this, of point line] show ?thesis
    by (intro that[of "foldl (nearestStep point line) (nearestInit point) [0..<length line - 1]"])
       (simp_all add: nearestPointOnLine_def Let_def)
qed

lemma vertex_is_along:
  "along a b 0 = a" "along a b 1 = b"
  by (simp_all add: along_def)

lemma upt_2: "[0..<2] = [0, 1]" by (simp add: upt_conv_Cons)

lemma nearestPointOnLine_props:
  assumes "2 \<le> length line"
  shows
   "np_index (nearestPointOnLine point line) + 1 < length line \<and>
    0 \<le> np_t (nearestPointOnLine point line) \<and> np_t (nearestPointOnLine point line) \<le> 1 \<and>
    np_t (nearestPointOnLine point line) =
      clampedT point (line ! np_index (nearestPointOnLine point line))
                     (line ! (np_index (nearestPointOnLine point line) + 1)) \<and>
    np_point (nearestPointOnLine point line) =
      along (line ! np_index (nearestPointOnLine point line))
            (line ! (np_index (nearestPointOnLine point line) + 1))
            (np_t (nearestPointOnLine point line)) \<and>
    (\<forall>i. i + 1 < length line \<longrightarrow>
       distance point (np_point (nearestPointOnLine point line))
         \<le> distance point (segmentProjection point line i)) \<and>
    (\<forall>i<np_index (nearestPointOnLine point line).
       distance point (np_point (nearestPointOnLine point line))
         < distance point (segmentProjection point line i)) \<and>
    (\<forall>i s. i + 1 < length line \<longrightarrow> 0 \<le> s \<longrightarrow> s \<le> 1 \<longrightarrow>
       distance point (np_point (nearestPointOnLine point line))
         \<le> distance point (along (line ! i) (line ! (i + 1)) s)) \<and>
    (\<forall>v\<in>set line.
       distance point (np_point (nearestPointOnLine point line)) \<le> distance point v)"
proof -
  define r where "r = nearestPointOnLine point line"
  obtain st where inv: "nearestInv point line (length line - 1) st"
    and fields: "np_point r = nearestPoint st" "np_index r = nearestIndex st"
      "np_t r = nearestT st"
    unfolding r_def by (rule nearestPointOnLine_inv[OF assms])
  have idx: "np_index r + 1 < length line"
    using inv assms unfolding nearestInv_def fields by linarith
  have t: "np_t r = clampedT point (line ! np_index r) (line ! (np_index r + 1))"
    using inv unfolding nearestInv_def fields by blast
  have pt': "np_point r = segmentProjection point line (np_index r)"
    using inv unfolding nearestInv_def fields by blast
  have pt: "np_point r = along (line ! np_index r) (line ! (np_index r + 1)) (np_t r)"
    unfolding pt' segmentProjection_def t[symmetric] ..
  have minp: "distance point (np_point r) \<le> distance point (segmentProjection point line i)"
    if "i + 1 < length line" for i
  proof -
    from that have "i < length line - 1" by simp
    with inv show ?thesis unfolding nearestInv_def fields by blast
  qed
  have first: "\<forall>i<np_index r. distance point (np_point r) < distance point (segmentProjection point line i)"
    using inv unfolding nearestInv_def fields by blast
  have minall: "distance point (np_point r) \<le> distance point (along (line ! i) (line ! (i + 1)) s)"
    if "i + 1 < length line" "0 \<le> s" "s \<le> 1" for i s
    using minp[OF that(1)] closest_on_segment[OF that(2,3), of point "line ! i" "line ! (i + 1)"]
    by (simp add: segmentProjection_def)
  have vert: "distance point (np_point r) \<le> distance point v" if "v \<in> set line" for v
  proof -
    from that obtain k where k: "k < length line" "v = line ! k"
      by (auto simp: in_set_conv_nth)
    show ?thesis
    proof (cases "k + 1 < length line")
      case True
      from minall[OF True, of 0] show ?thesis by (simp add: vertex_is_along k)
    next
      case False
      with k assms have k1: "(k - 1) + 1 < length line" "k = (k - 1) + 1" by simp_all
      from minall[OF k1(1), of 1] show ?thesis using k1(2) by (simp add: vertex_is_along k)
    qed
  qed
  have range: "0 \<le> np_t r \<and> np_t r \<le> 1"
    unfolding t by (rule clampedT_range)
  show ?thesis
    unfolding r_def[symmetric]
    using idx range t pt minp first minall vert by blast
qed

text \<open>Evaluation on polylines of two and of three points.\<close>

lemma nearestPointOnLine_two:
  "nearestPointOnLine p [a, b] =
    \<lparr>np_point = along a b (clampedT p a b), np_index = 0, np_t = clampedT p a b\<rparr>"
  by (simp add: nearestPointOnLine_def nearestStep_alt nearestInit_def segmentProjection_def)

lemma nearestPointOnLine_three:
  "nearestPointOnLine p [a, b, c] =
    (if distance p (along b c (clampedT p b c)) < distance p (along a b (clampedT p a b))
     then \<lparr>np_point = along b c (clampedT p b c), np_index = 1, np_t = clampedT p b c\<rparr>
     else \<lparr>np_point = along a b (clampedT p a b), np_index = 0, np_t = clampedT p a b\<rparr>)"
  by (simp add: nearestPointOnLine_def nearestStep_alt nearestInit_def segmentProjection_def upt_2)

lemma clampedT_eval:
  "clampedT (px, py) (ax, ay) (bx, by) =
     max 0 (min 1 (if (bx - ax) * (bx - ax) + (by - ay) * (by - ay) > 0
       then ((px - ax) * (bx - ax) + (py - ay) * (by - ay)) /
            ((bx - ax) * (bx - ax) + (by - ay) * (by - ay)) else 0))"
  by (simp only: clampedT_def Let_def fst_conv snd_conv)

lemma along_eval: "along (ax, ay) (bx, by) s = (ax + s * (bx - ax), ay + s * (by - ay))"
  by (simp add: along_def)

lemma distance_eval: "distance (ax, ay) (bx, by) = sqrt ((ax - bx) * (ax - bx) + (ay - by) * (ay - by))"
  by (simp add: distance_def Let_def)

subsection \<open>The projection in either arithmetic\<close>








subsection \<open>Evaluation of the rounding\<close>














section \<open>Interpolation along a path\<close>

lemma distance_eq_0: "distance a b = 0 \<longleftrightarrow> a = b"
proof -
  have "distance a b = 0 \<longleftrightarrow> (fst a - fst b) * (fst a - fst b) + (snd a - snd b) * (snd a - snd b) = 0"
    by (simp add: distance_def Let_def)
  also have "\<dots> \<longleftrightarrow> fst a - fst b = 0 \<and> snd a - snd b = 0"
    by (metis add_nonneg_eq_0_iff zero_le_square mult_eq_0_iff)
  also have "\<dots> \<longleftrightarrow> a = b" by (auto simp: prod_eq_iff)
  finally show ?thesis .
qed


lemma along_0 [simp]: "along a b 0 = a" by (simp add: along_def)
lemma along_1 [simp]: "along a b 1 = b" by (simp add: along_def)
lemma along_same [simp]: "along a a s = a" by (simp add: along_def)

lemma pointOnSegment_along:
  "pointOnSegment line i t = along (line ! i) (line ! (i + 1)) t"
  by (simp add: pointOnSegment_def along_def)


lemma segments_ne:
  "forwardSegments line si st ei et \<noteq> []" "backwardSegments line si st ei et \<noteq> []"
  by (simp_all add: forwardSegments_def backwardSegments_def Let_def)

lemma pathSegments_ne: "pathSegments line si st ei et \<noteq> []"
  by (simp add: pathSegments_def segments_ne)

lemma pointAlongLine_walk:
  assumes "si + 1 < length line" "ei + 1 < length line" "si \<noteq> ei"
  shows "pointAlongLine line si st ei et p =
    (case walkSegments (pathSegments line si st ei et)
            (p * sum_list (map seg_dist (pathSegments line si st ei et))) 0 of
       Some c \<Rightarrow> Some c
     | None \<Rightarrow> Some (seg_end (last (pathSegments line si st ei et))))"
proof -
  have "pointAlongLine line si st ei et p =
    (let segments = pathSegments line si st ei et
     in case walkSegments segments (p * sum_list (map seg_dist segments)) 0 of
       Some c \<Rightarrow> Some c
     | None \<Rightarrow> Some (if segments = [] then pointOnSegment line si st
                      else seg_end (last segments)))"
    using assms unfolding pointAlongLine_def pathSegments_def Let_def by simp
  then show ?thesis unfolding Let_def by (simp only: pathSegments_ne if_False)
qed

lemma pointAlongLine_same:
  assumes "si + 1 < length line"
  shows "pointAlongLine line si st si et p =
    Some (along (pointOnSegment line si st) (pointOnSegment line si et) p)"
  using assms by (simp add: pointAlongLine_def Let_def along_def)


lemma chain_dist_nonneg: "chain segs \<Longrightarrow> s \<in> set segs \<Longrightarrow> 0 \<le> seg_dist s"
  by (induction segs) (auto simp: distance_nonneg)

lemma chain_sum_nonneg: "chain segs \<Longrightarrow> 0 \<le> sum_list (map seg_dist segs)"
  by (induction segs) (auto simp: distance_nonneg)

lemma chain_all_zero:
  "chain (s # segs) \<Longrightarrow> sum_list (map seg_dist (s # segs)) = 0 \<Longrightarrow>
   seg_end (last (s # segs)) = seg_start s"
proof (induction segs arbitrary: s)
  case Nil
  then show ?case by (simp add: distance_eq_0)
next
  case (Cons s' segs)
  from Cons.prems have c: "chain (s' # segs)" and link: "seg_end s = seg_start s'"
    and d: "seg_dist s = distance (seg_start s) (seg_end s)" by simp_all
  have "0 \<le> seg_dist s" using d by (simp add: distance_nonneg)
  moreover have "0 \<le> sum_list (map seg_dist (s' # segs))" by (rule chain_sum_nonneg[OF c])
  ultimately have z: "seg_dist s = 0" "sum_list (map seg_dist (s' # segs)) = 0"
    using Cons.prems(2) by simp_all
  from z(1) d have "seg_start s = seg_end s" by (simp add: distance_eq_0)
  with Cons.IH[OF c z(2)] link show ?case by simp
qed


lemma walkSegments_start:
  "segs \<noteq> [] \<Longrightarrow> 0 \<le> seg_dist (hd segs) \<Longrightarrow> walkSegments segs 0 0 = Some (seg_start (hd segs))"
  by (cases segs) (simp_all add: Let_def)

lemma walkSegments_end:
  "chain segs \<Longrightarrow> segs \<noteq> [] \<Longrightarrow>
   walkSegments segs (acc + sum_list (map seg_dist segs)) acc = Some (seg_end (last segs))"
proof (induction segs arbitrary: acc)
  case Nil
  then show ?case by simp
next
  case (Cons s segs)
  have d: "seg_dist s = distance (seg_start s) (seg_end s)" using Cons.prems(1) by simp
  have d0: "0 \<le> seg_dist s" using d by (simp add: distance_nonneg)
  have c: "chain segs" using Cons.prems(1) by simp
  have rest0: "0 \<le> sum_list (map seg_dist segs)" by (rule chain_sum_nonneg[OF c])
  show ?case
  proof (cases "sum_list (map seg_dist segs) = 0")
    case True
    have last_eq: "seg_end (last (s # segs)) = seg_end s"
    proof (cases segs)
      case Nil
      then show ?thesis by simp
    next
      case (Cons s' segs')
      with Cons.prems(1) have link: "seg_end s = seg_start s'" by simp
      from chain_all_zero[of s' segs'] c True Cons have "seg_end (last (s' # segs')) = seg_start s'"
        by simp
      with link Cons show ?thesis by simp
    qed
    show ?thesis
    proof (cases "0 < seg_dist s")
      case pos: True
      then show ?thesis using True last_eq by (simp add: Let_def del: last.simps)
    next
      case False
      with d0 have z: "seg_dist s = 0" by simp
      with d have "seg_start s = seg_end s" by (simp add: distance_eq_0)
      then show ?thesis using True z last_eq by (simp add: Let_def del: last.simps)
    qed
  next
    case False
    with rest0 have pos: "0 < sum_list (map seg_dist segs)" by simp
    then have ne: "segs \<noteq> []" by auto
    from Cons.IH[OF c ne, of "acc + seg_dist s"] pos ne show ?thesis
      by (simp add: add.assoc)
  qed
qed

lemma chain_Cons_hd:
  "chain rest \<Longrightarrow> seg_start (hd rest) = b \<Longrightarrow> rest \<noteq> [] \<Longrightarrow> chain (mkSegment a b # rest)"
  by (cases rest) (simp_all add: mkSegment_def)

lemma chain_up:
  "a \<le> b \<Longrightarrow>
   chain (map (\<lambda>i. mkSegment (f i) (f (i + 1))) [a..<b] @ [mkSegment (f b) e]) \<and>
   seg_start (hd (map (\<lambda>i. mkSegment (f i) (f (i + 1))) [a..<b] @ [mkSegment (f b) e])) = f a"
proof (induction "b - a" arbitrary: a)
  case 0
  then show ?case by (simp add: mkSegment_def)
next
  case (Suc n)
  then have lt: "a < b" and n: "n = b - Suc a" and le: "Suc a \<le> b" by simp_all
  define rest where "rest = map (\<lambda>i. mkSegment (f i) (f (i + 1))) [Suc a..<b] @ [mkSegment (f b) e]"
  from Suc.hyps(1)[OF n le] have IH: "chain rest" "seg_start (hd rest) = f (Suc a)"
    by (simp_all add: rest_def)
  have rest_ne: "rest \<noteq> []" by (simp add: rest_def)
  have eq: "map (\<lambda>i. mkSegment (f i) (f (i + 1))) [a..<b] @ [mkSegment (f b) e]
      = mkSegment (f a) (f (Suc a)) # rest"
    using lt by (simp add: upt_conv_Cons rest_def)
  show ?case unfolding eq using chain_Cons_hd[OF IH rest_ne, of "f a"]
    by (simp add: mkSegment_def)
qed

lemma chain_down:
  "a \<le> b \<Longrightarrow>
   chain (map (\<lambda>i. mkSegment (f (i + 1)) (f i)) (rev [a..<b]) @ [mkSegment (f a) e]) \<and>
   seg_start (hd (map (\<lambda>i. mkSegment (f (i + 1)) (f i)) (rev [a..<b]) @ [mkSegment (f a) e])) = f b"
proof (induction b)
  case 0
  then show ?case by (simp add: mkSegment_def)
next
  case (Suc b)
  show ?case
  proof (cases "a = Suc b")
    case True
    then show ?thesis by (simp add: mkSegment_def)
  next
    case False
    with Suc.prems have le: "a \<le> b" by simp
    define rest where "rest = map (\<lambda>i. mkSegment (f (i + 1)) (f i)) (rev [a..<b]) @ [mkSegment (f a) e]"
    from Suc.IH[OF le] have IH: "chain rest" "seg_start (hd rest) = f b"
      by (simp_all add: rest_def)
    have rest_ne: "rest \<noteq> []" by (simp add: rest_def)
    have eq: "map (\<lambda>i. mkSegment (f (i + 1)) (f i)) (rev [a..<Suc b]) @ [mkSegment (f a) e]
        = mkSegment (f (Suc b)) (f b) # rest"
      using le by (simp add: rest_def)
    show ?thesis unfolding eq using chain_Cons_hd[OF IH rest_ne, of "f (Suc b)"]
      by (simp add: mkSegment_def)
  qed
qed

lemma forwardSegments_chain:
  assumes "si < ei"
  shows "chain (forwardSegments line si st ei et)"
    and "seg_start (hd (forwardSegments line si st ei et)) = pointOnSegment line si st"
    and "seg_end (last (forwardSegments line si st ei et)) = pointOnSegment line ei et"
proof -
  define rest where "rest = map (\<lambda>i. mkSegment (line ! i) (line ! (i + 1))) [si + 1..<ei]
     @ [mkSegment (line ! ei) (pointOnSegment line ei et)]"
  have eq: "forwardSegments line si st ei et
      = mkSegment (pointOnSegment line si st) (line ! (si + 1)) # rest"
    by (simp add: forwardSegments_def Let_def rest_def)
  from assms have "si + 1 \<le> ei" by simp
  from chain_up[OF this, of "\<lambda>i. line ! i" "pointOnSegment line ei et"]
  have "chain rest" "seg_start (hd rest) = line ! (si + 1)" by (simp_all add: rest_def)
  moreover have "rest \<noteq> []" by (simp add: rest_def)
  ultimately show "chain (forwardSegments line si st ei et)"
    unfolding eq by (rule chain_Cons_hd)
  show "seg_start (hd (forwardSegments line si st ei et)) = pointOnSegment line si st"
    unfolding eq by (simp add: mkSegment_def)
  show "seg_end (last (forwardSegments line si st ei et)) = pointOnSegment line ei et"
    by (simp add: forwardSegments_def Let_def mkSegment_def)
qed

lemma backwardSegments_chain:
  assumes "ei < si"
  shows "chain (backwardSegments line si st ei et)"
    and "seg_start (hd (backwardSegments line si st ei et)) = pointOnSegment line si st"
    and "seg_end (last (backwardSegments line si st ei et)) = pointOnSegment line ei et"
proof -
  define rest where "rest = map (\<lambda>i. mkSegment (line ! (i + 1)) (line ! i)) (rev [ei + 1..<si])
     @ [mkSegment (line ! (ei + 1)) (pointOnSegment line ei et)]"
  have eq: "backwardSegments line si st ei et
      = mkSegment (pointOnSegment line si st) (line ! si) # rest"
    by (simp add: backwardSegments_def Let_def rest_def)
  from assms have "ei + 1 \<le> si" by simp
  from chain_down[OF this, of "\<lambda>i. line ! i" "pointOnSegment line ei et"]
  have "chain rest" "seg_start (hd rest) = line ! si" by (simp_all add: rest_def)
  moreover have "rest \<noteq> []" by (simp add: rest_def)
  ultimately show "chain (backwardSegments line si st ei et)"
    unfolding eq by (rule chain_Cons_hd)
  show "seg_start (hd (backwardSegments line si st ei et)) = pointOnSegment line si st"
    unfolding eq by (simp add: mkSegment_def)
  show "seg_end (last (backwardSegments line si st ei et)) = pointOnSegment line ei et"
    by (simp add: backwardSegments_def Let_def mkSegment_def)
qed

lemma pathSegments_chain:
  assumes "si \<noteq> ei"
  shows "chain (pathSegments line si st ei et)"
    and "seg_start (hd (pathSegments line si st ei et)) = pointOnSegment line si st"
    and "seg_end (last (pathSegments line si st ei et)) = pointOnSegment line ei et"
  using assms forwardSegments_chain[of si ei line st et] backwardSegments_chain[of ei si line st et]
  by (auto simp: pathSegments_def)

lemma pointAlongLine_start:
  assumes "si + 1 < length line" "ei + 1 < length line"
  shows "pointAlongLine line si st ei et 0 = Some (pointOnSegment line si st)"
proof (cases "si = ei")
  case True
  with assms show ?thesis by (simp add: pointAlongLine_same)
next
  case False
  note ch = pathSegments_chain[OF False, of line st et]
  have "0 \<le> seg_dist (hd (pathSegments line si st ei et))"
    by (rule chain_dist_nonneg[OF ch(1)]) (simp add: pathSegments_ne)
  from walkSegments_start[OF pathSegments_ne this] show ?thesis
    by (simp add: pointAlongLine_walk[OF assms False] ch(2))
qed

lemma pointAlongLine_finish:
  assumes "si + 1 < length line" "ei + 1 < length line"
  shows "pointAlongLine line si st ei et 1 = Some (pointOnSegment line ei et)"
proof (cases "si = ei")
  case True
  with assms show ?thesis by (simp add: pointAlongLine_same)
next
  case False
  note ch = pathSegments_chain[OF False, of line st et]
  from walkSegments_end[OF ch(1) pathSegments_ne, of 0] show ?thesis
    by (simp add: pointAlongLine_walk[OF assms False] ch(3))
qed







text \<open>
  C4. On a polyline of at least two points, with the projections of \<open>A\<close> and \<open>B\<close> as
  start and end, \<^verbatim>\<open>pointAlongLine\<close> returns the projected point of \<open>A\<close> at progress
  0 and the projected point of \<open>B\<close> at progress 1 (exactly, numbers being reals); and
  when both projections have the same segment index, the result at any progress is
  the linear interpolation between the two projected points.
\<close>

theorem pointAlongLine_endpoints:
  assumes "2 \<le> length P"
  shows
   "pointAlongLine P (np_index (nearestPointOnLine A P)) (np_t (nearestPointOnLine A P))
       (np_index (nearestPointOnLine B P)) (np_t (nearestPointOnLine B P)) 0
      = Some (np_point (nearestPointOnLine A P)) \<and>
    pointAlongLine P (np_index (nearestPointOnLine A P)) (np_t (nearestPointOnLine A P))
       (np_index (nearestPointOnLine B P)) (np_t (nearestPointOnLine B P)) 1
      = Some (np_point (nearestPointOnLine B P)) \<and>
    (np_index (nearestPointOnLine A P) = np_index (nearestPointOnLine B P) \<longrightarrow>
      (\<forall>progress.
        pointAlongLine P (np_index (nearestPointOnLine A P)) (np_t (nearestPointOnLine A P))
          (np_index (nearestPointOnLine B P)) (np_t (nearestPointOnLine B P)) progress
        = Some (along (np_point (nearestPointOnLine A P)) (np_point (nearestPointOnLine B P))
                 progress)))"
proof -
  define a where "a = nearestPointOnLine A P"
  define b where "b = nearestPointOnLine B P"
  from nearestPointOnLine_props[OF assms, of A] have
    ia: "np_index a + 1 < length P" and pa: "np_point a = pointOnSegment P (np_index a) (np_t a)"
    by (simp_all add: a_def pointOnSegment_along)
  from nearestPointOnLine_props[OF assms, of B] have
    ib: "np_index b + 1 < length P" and pb: "np_point b = pointOnSegment P (np_index b) (np_t b)"
    by (simp_all add: b_def pointOnSegment_along)
  have "pointAlongLine P (np_index a) (np_t a) (np_index b) (np_t b) 0 = Some (np_point a)"
    unfolding pa by (rule pointAlongLine_start[OF ia ib])
  moreover have "pointAlongLine P (np_index a) (np_t a) (np_index b) (np_t b) 1 = Some (np_point b)"
    unfolding pb by (rule pointAlongLine_finish[OF ia ib])
  moreover have "pointAlongLine P (np_index a) (np_t a) (np_index b) (np_t b) progress
        = Some (along (np_point a) (np_point b) progress)"
    if "np_index a = np_index b" for progress
    using pointAlongLine_same[OF ib, of "np_t a" "np_t b" progress] that pa pb by simp
  ultimately show ?thesis unfolding a_def b_def by blast
qed

theorem pointAlongLine_endpoints_witness:
  "2 \<le> length [(0, 0), (4, 0), (4, 3) :: coord] \<and>
   nearestPointOnLine (1, 2) [(0, 0), (4, 0), (4, 3)]
     = \<lparr>np_point = (1, 0), np_index = 0, np_t = 1 / 4\<rparr> \<and>
   nearestPointOnLine (5, 2) [(0, 0), (4, 0), (4, 3)]
     = \<lparr>np_point = (4, 2), np_index = 1, np_t = 2 / 3\<rparr> \<and>
   pointAlongLine [(0, 0), (4, 0), (4, 3)] 0 (1 / 4) 1 (2 / 3) 0 = Some (1, 0) \<and>
   pointAlongLine [(0, 0), (4, 0), (4, 3)] 0 (1 / 4) 1 (2 / 3) 1 = Some (4, 2)"
proof -
  let ?L = "[(0, 0), (4, 0), (4, 3)] :: polyline"
  have len: "2 \<le> length ?L" by simp
  have a: "nearestPointOnLine (1, 2) ?L = \<lparr>np_point = (1, 0), np_index = 0, np_t = 1 / 4\<rparr>"
    by (simp add: nearestPointOnLine_three clampedT_eval along_eval distance_eval)
  have b: "nearestPointOnLine (5, 2) ?L = \<lparr>np_point = (4, 2), np_index = 1, np_t = 2 / 3\<rparr>"
    by (simp add: nearestPointOnLine_three clampedT_eval along_eval distance_eval)
  from pointAlongLine_endpoints [OF len, of "(1, 2)" "(5, 2)"] len a b
  show ?thesis by simp
qed



section \<open>Path resolver: theorems\<close>

lemma bestCandidate_None: "bestCandidate f xs = None \<longleftrightarrow> xs = []"
  by (cases xs) (simp_all split: option.splits)

lemma bestCandidate_snoc:
  "bestCandidate f (xs @ [x]) =
    (case bestCandidate f xs of
       None \<Rightarrow> Some x
     | Some y \<Rightarrow> if f x < f y then Some x else Some y)"
  by (induction xs) (auto split: option.splits)

lemma bestCandidate_min:
  "bestCandidate f xs = Some x \<Longrightarrow> x \<in> set xs \<and> (\<forall>y\<in>set xs. f x \<le> f y)"
proof (induction xs arbitrary: x)
  case Nil
  then show ?case by simp
next
  case (Cons a xs)
  show ?case
  proof (cases "bestCandidate f xs")
    case None
    then have "xs = []" by (simp add: bestCandidate_None)
    with Cons.prems show ?thesis by simp
  next
    case (Some y)
    from Cons.IH[OF Some] have y: "y \<in> set xs" "\<forall>z\<in>set xs. f y \<le> f z" by simp_all
    show ?thesis
    proof (cases "f a \<le> f y")
      case True
      with Some Cons.prems have "x = a" by simp
      with True y show ?thesis by fastforce
    next
      case False
      with Some Cons.prems have "x = y" by simp
      with False y show ?thesis by fastforce
    qed
  qed
qed

lemma findStep_short: "length path < 2 \<Longrightarrow> findStep start endp b path = b"
  by (simp add: findStep_def)

lemma foldl_findStep_filter:
  "foldl (findStep start endp) b paths
    = foldl (findStep start endp) b (filter (\<lambda>p. 2 \<le> length p) paths)"
  by (induction paths arbitrary: b) (simp_all add: findStep_short not_le)

lemma findStep_init:
  "2 \<le> length p \<Longrightarrow> findStep start endp bestInit p = bestOf start endp p"
  by (simp add: findStep_def bestInit_def bestOf_def Let_def)

lemma findStep_bestOf:
  "2 \<le> length p \<Longrightarrow>
   findStep start endp (bestOf start endp q) p =
     (if score start endp p < score start endp q then bestOf start endp p
      else bestOf start endp q)"
  by (simp add: findStep_def bestOf_def score_def Let_def)

lemma foldl_findStep_best:
  "\<forall>p\<in>set cands. 2 \<le> length p \<Longrightarrow>
   foldl (findStep start endp) bestInit cands =
     (case bestCandidate (score start endp) cands of
        None \<Rightarrow> bestInit
      | Some p \<Rightarrow> bestOf start endp p)"
proof (induction cands rule: rev_induct)
  case Nil
  then show ?case by simp
next
  case (snoc x xs)
  then have x: "2 \<le> length x" and xs: "\<forall>p\<in>set xs. 2 \<le> length p" by simp_all
  show ?case
    using snoc.IH[OF xs] x
    by (simp add: bestCandidate_snoc findStep_init findStep_bestOf split: option.splits)
qed

lemma findPathBetweenPoints_resolve:
  "findPathBetweenPoints rp rid start endp = resolve rp rid start endp"
proof (cases "rp rid")
  case None
  then show ?thesis by (simp add: findPathBetweenPoints_def resolve_def pathsFor_def)
next
  case (Some paths)
  define cands where "cands = filter (\<lambda>p. 2 \<le> length p) paths"
  have fold_eq: "foldl (findStep start endp) bestInit paths =
     (case bestCandidate (score start endp) cands of
        None \<Rightarrow> bestInit
      | Some p \<Rightarrow> bestOf start endp p)"
    unfolding cands_def
    by (subst foldl_findStep_filter, rule foldl_findStep_best) simp
  show ?thesis
  proof (cases "bestCandidate (score start endp) cands")
    case None
    then show ?thesis
      using Some fold_eq
      by (simp add: findPathBetweenPoints_def resolve_def pathsFor_def cands_def bestInit_def Let_def)
  next
    case (Some p)
    then have "cands \<noteq> []" by auto
    then have "paths \<noteq> []" by (auto simp: cands_def)
    then show ?thesis
      using Some \<open>rp rid = Some paths\<close> fold_eq
      by (simp add: findPathBetweenPoints_def resolve_def pathsFor_def cands_def[symmetric]
          bestOf_def resolved_def Let_def)
  qed
qed

text \<open>
  C3. \<^verbatim>\<open>findPathBetweenPoints\<close> is the resolver of the specification: among the
  polylines of the route with at least two points it keeps one with the least sum
  of the two projection distances (the first of them), and returns it with both
  projections exactly when both distances are below 0.005; in every other case,
  also when the route has no polyline of two points, it returns none.
\<close>

theorem findPathBetweenPoints_best:
  "findPathBetweenPoints rp rid start endp = resolve rp rid start endp \<and>
   (\<forall>p. bestCandidate (score start endp) (filter (\<lambda>p. 2 \<le> length p) (pathsFor rp rid)) = Some p
      \<longrightarrow> p \<in> set (pathsFor rp rid) \<and> 2 \<le> length p \<and>
          (\<forall>q\<in>set (pathsFor rp rid). 2 \<le> length q \<longrightarrow>
             score start endp p \<le> score start endp q)) \<and>
   (bestCandidate (score start endp) (filter (\<lambda>p. 2 \<le> length p) (pathsFor rp rid)) = None
      \<longleftrightarrow> (\<forall>q\<in>set (pathsFor rp rid). length q < 2))"
proof (intro conjI allI impI)
  show "findPathBetweenPoints rp rid start endp = resolve rp rid start endp"
    by (rule findPathBetweenPoints_resolve)
next
  fix p
  assume "bestCandidate (score start endp) (filter (\<lambda>p. 2 \<le> length p) (pathsFor rp rid)) = Some p"
  from bestCandidate_min[OF this]
  show "p \<in> set (pathsFor rp rid)" "2 \<le> length p"
    "\<forall>q\<in>set (pathsFor rp rid). 2 \<le> length q \<longrightarrow> score start endp p \<le> score start endp q"
    by simp_all
next
  show "bestCandidate (score start endp) (filter (\<lambda>p. 2 \<le> length p) (pathsFor rp rid)) = None
      \<longleftrightarrow> (\<forall>q\<in>set (pathsFor rp rid). length q < 2)"
    by (auto simp: bestCandidate_None filter_empty_conv not_le)
qed

theorem findPathBetweenPoints_best_witness:
  "findPathBetweenPoints [''L'' \<mapsto> [[(0, 0)], [(0, 1), (4, 1)], [(0, 0), (4, 0)]]] ''L'' (1, 0) (2, 0)
     = Some \<lparr>pi_path = [(0, 0), (4, 0)], pi_startIndex = 0, pi_startT = 1 / 4,
             pi_endIndex = 0, pi_endT = 1 / 2\<rparr> \<and>
   bestCandidate (score (1, 0) (2, 0))
     (filter (\<lambda>p. 2 \<le> length p)
        (pathsFor [''L'' \<mapsto> [[(0, 0)], [(0, 1), (4, 1)], [(0, 0), (4, 0)]]] ''L''))
     = Some [(0, 0), (4, 0)] \<and>
   score (1, 0) (2, 0) [(0, 0), (4, 0)] \<le> score (1, 0) (2, 0) [(0, 1), (4, 1)] \<and>
   findPathBetweenPoints [''L'' \<mapsto> [[(0, 0), (4, 0)]]] ''L'' (1, 1) (2, 0) = None"
proof -
  let ?rp = "[''L'' \<mapsto> [[(0, 0)], [(0, 1), (4, 1)], [(0, 0), (4, 0)]]] :: routePaths"
  have n1: "nearestPointOnLine (1, 0) [(0, 0), (4, 0)]
      = \<lparr>np_point = (1, 0), np_index = 0, np_t = 1 / 4\<rparr>"
    and n2: "nearestPointOnLine (2, 0) [(0, 0), (4, 0)]
      = \<lparr>np_point = (2, 0), np_index = 0, np_t = 1 / 2\<rparr>"
    and n3: "nearestPointOnLine (1, 0) [(0, 1), (4, 1)]
      = \<lparr>np_point = (1, 1), np_index = 0, np_t = 1 / 4\<rparr>"
    and n4: "nearestPointOnLine (2, 0) [(0, 1), (4, 1)]
      = \<lparr>np_point = (2, 1), np_index = 0, np_t = 1 / 2\<rparr>"
    and n5: "nearestPointOnLine (1, 1) [(0, 0), (4, 0)]
      = \<lparr>np_point = (1, 0), np_index = 0, np_t = 1 / 4\<rparr>"
    by (simp_all add: nearestPointOnLine_two clampedT_eval along_eval)
  have s1: "score (1, 0) (2, 0) [(0, 0), (4, 0)] = 0"
    and s2: "score (1, 0) (2, 0) [(0, 1), (4, 1)] = 2"
    by (simp_all add: score_def n1 n2 n3 n4 distance_eval)
  have cands: "filter (\<lambda>p. 2 \<le> length p) (pathsFor ?rp ''L'')
      = [[(0, 1), (4, 1)], [(0, 0), (4, 0)]]"
    by (simp add: pathsFor_def)
  have best: "bestCandidate (score (1, 0) (2, 0)) (filter (\<lambda>p. 2 \<le> length p) (pathsFor ?rp ''L''))
      = Some [(0, 0), (4, 0)]"
    unfolding cands by (simp add: s1 s2)
  have r1: "resolve ?rp ''L'' (1, 0) (2, 0)
     = Some \<lparr>pi_path = [(0, 0), (4, 0)], pi_startIndex = 0, pi_startT = 1 / 4,
             pi_endIndex = 0, pi_endT = 1 / 2\<rparr>"
    unfolding resolve_def best by (simp add: n1 n2 resolved_def distance_eval)
  have r2: "resolve [''L'' \<mapsto> [[(0, 0), (4, 0)]]] ''L'' (1, 1) (2, 0) = None"
    by (simp add: resolve_def pathsFor_def n5 n2 distance_eval)
  have e1: "findPathBetweenPoints ?rp ''L'' (1, 0) (2, 0) = resolve ?rp ''L'' (1, 0) (2, 0)"
    using findPathBetweenPoints_best [of ?rp "''L''" "(1, 0)" "(2, 0)"] by (rule conjunct1)
  have e2: "findPathBetweenPoints [''L'' \<mapsto> [[(0, 0), (4, 0)]]] ''L'' (1, 1) (2, 0)
      = resolve [''L'' \<mapsto> [[(0, 0), (4, 0)]]] ''L'' (1, 1) (2, 0)"
    using findPathBetweenPoints_best [of "[''L'' \<mapsto> [[(0, 0), (4, 0)]]]" "''L''" "(1, 1)" "(2, 0)"]
    by (rule conjunct1)
  show ?thesis
    unfolding e1 e2 r1 r2 best s1 s2 by simp
qed

section \<open>Bearing\<close>








lemma tangentBearing_in_range:
  "idx + 1 < length path \<Longrightarrow>
   tangentBearing path idx dir =
     Some (if dir = Some S then calculateBearing (path ! idx) (path ! (idx + 1)) + 180
           else calculateBearing (path ! idx) (path ! (idx + 1)))"
  by (simp add: tangentBearing_def Let_def)

lemma pointAlongLine_Some:
  "si + 1 < length line \<Longrightarrow> ei + 1 < length line \<Longrightarrow>
   \<exists>c. pointAlongLine line si st ei et p = Some c"
  by (cases "si = ei") (auto simp: pointAlongLine_same pointAlongLine_walk split: option.splits)

lemma trainBearing_live:
  assumes "trainAnimations st (trainId train) = Some anim" "animPath anim = Some p"
    "2 \<le> length (pi_path p)"
  shows "trainBearing rp st train coords =
    Some (Some (liveBearing (pi_path p) coords (getDirectionFromStopId (currentStopId train))))"
proof -
  from nearestPointOnLine_props[OF assms(3), of coords]
  have "np_index (nearestPointOnLine coords (pi_path p)) + 1 < length (pi_path p)" by blast
  from tangentBearing_in_range[OF this] show ?thesis
    using assms by (simp add: trainBearing_def liveBearing_def Let_def)
qed




section \<open>Reconciliation and frames: theorems\<close>

lemma findPathBetweenPoints_ok:
  assumes "findPathBetweenPoints rp rid start endp = Some r"
  shows "pathOk r \<and> pi_path r \<in> set (pathsFor rp rid)"
proof -
  from assms have res: "resolve rp rid start endp = Some r"
    by (simp add: findPathBetweenPoints_resolve)
  then obtain p where best: "bestCandidate (score start endp)
      (filter (\<lambda>p. 2 \<le> length p) (pathsFor rp rid)) = Some p"
    and r: "r = resolved start endp p"
    by (auto simp: resolve_def split: option.splits if_splits)
  from bestCandidate_min[OF best] have p: "p \<in> set (pathsFor rp rid)" "2 \<le> length p"
    by simp_all
  from nearestPointOnLine_props[OF p(2), of start] nearestPointOnLine_props[OF p(2), of endp]
  have "np_index (nearestPointOnLine start p) + 1 < length p"
    "np_index (nearestPointOnLine endp p) + 1 < length p" by blast+
  with p show ?thesis by (simp add: r resolved_def pathOk_def)
qed

lemma sampleAnimation_Some:
  assumes "animOk a"
  shows "\<exists>c. sampleAnimation now a = Some c"
proof (cases "animPath a")
  case None
  then show ?thesis by (simp add: sampleAnimation_def Let_def)
next
  case (Some p)
  with assms have "pathOk p" by (simp add: animOk_def)
  then have "pi_startIndex p + 1 < length (pi_path p)" "pi_endIndex p + 1 < length (pi_path p)"
    by (simp_all add: pathOk_def)
  from pointAlongLine_Some[OF this] show ?thesis
    using Some by (simp add: sampleAnimation_def Let_def)
qed

lemma startPosOf_Some:
  assumes "storeOk st"
  shows "\<exists>c. startPosOf now st train = Some c"
proof (cases "trainAnimations st (trainId train)")
  case None
  then show ?thesis by (simp add: startPosOf_def Let_def split: option.splits)
next
  case (Some a)
  with assms have "animOk a" by (auto simp: storeOk_def)
  from sampleAnimation_Some[OF this] show ?thesis
    using Some by (simp add: startPosOf_def Let_def)
qed

lemma reconcileTrain_cases:
  assumes "startPosOf now st train = Some sp"
  shows "reconcileTrain rp now st train =
    Some (if unchanged st train then st
          else if distance sp (longitude train, latitude train) > 0.02 then
            st\<lparr>currentPositions := (currentPositions st)(trainId train \<mapsto> (longitude train, latitude train)),
               trainAnimations := (trainAnimations st)(trainId train := None)\<rparr>
          else if distance sp (longitude train, latitude train) > 0.00001 then
            st\<lparr>trainAnimations := (trainAnimations st)(trainId train \<mapsto>
               \<lparr>startPos = sp, endPos = (longitude train, latitude train), startTime = now,
                animRouteId = routeId train,
                animPath = findPathBetweenPoints rp (routeId train) sp (longitude train, latitude train)\<rparr>)\<rparr>
          else st)"
  using assms by (simp add: reconcileTrain_def Let_def)

lemma storeOk_update:
  "storeOk st \<Longrightarrow> animOk a \<Longrightarrow>
   storeOk (st\<lparr>trainAnimations := (trainAnimations st)(i \<mapsto> a)\<rparr>)"
  by (simp add: storeOk_def)

lemma storeOk_delete:
  "storeOk st \<Longrightarrow>
   storeOk (st\<lparr>currentPositions := c, trainAnimations := (trainAnimations st)(i := None)\<rparr>)"
  by (simp add: storeOk_def)

lemma storeOk_positions:
  "storeOk st \<Longrightarrow> storeOk (st\<lparr>currentPositions := c\<rparr>)"
  by (simp add: storeOk_def)

lemma reconcileTrain_ok:
  assumes "storeOk st"
  shows "\<exists>st'. reconcileTrain rp now st train = Some st' \<and> storeOk st'"
proof -
  obtain sp where sp: "startPosOf now st train = Some sp"
    using startPosOf_Some[OF assms] by blast
  let ?new = "(longitude train, latitude train)"
  let ?a = "\<lparr>startPos = sp, endPos = ?new, startTime = now, animRouteId = routeId train,
              animPath = findPathBetweenPoints rp (routeId train) sp ?new\<rparr>"
  have "animOk ?a" if "\<not> distance sp ?new > 0.02"
    using that findPathBetweenPoints_ok[of rp "routeId train" sp ?new]
    by (auto simp: animOk_def split: option.splits)
  then show ?thesis
    unfolding reconcileTrain_cases[OF sp]
    using assms by (auto intro: storeOk_update storeOk_delete)
qed

lemma reconcileTrains_ok:
  "storeOk st \<Longrightarrow> \<exists>st'. reconcileTrains rp now st trains = Some st' \<and> storeOk st'"
proof (induction trains arbitrary: st)
  case Nil
  then show ?case by simp
next
  case (Cons t ts)
  from reconcileTrain_ok[OF Cons.prems, of rp now t] obtain st1
    where "reconcileTrain rp now st t = Some st1" "storeOk st1" by blast
  with Cons.IH[OF this(2)] show ?case by simp
qed

lemma cleanup_ok: "storeOk st \<Longrightarrow> storeOk (cleanup trains st)"
  by (auto simp: storeOk_def cleanup_def Let_def split: if_splits)

lemma reconcile_ok:
  assumes "storeOk st"
  shows "\<exists>st'. reconcile rp now trains st = Some st' \<and> storeOk st'"
proof -
  from reconcileTrains_ok[OF assms, of rp now trains] obtain st1
    where "reconcileTrains rp now st trains = Some st1" "storeOk st1" by blast
  then show ?thesis by (simp add: reconcile_def cleanup_ok)
qed

lemma fallbackBearing_Some: "\<exists>b. fallbackBearing coords dir paths = Some b"
proof (induction paths)
  case Nil
  then show ?case by simp
next
  case (Cons p ps)
  show ?case
  proof (cases "length p < 2")
    case True
    with Cons show ?thesis by simp
  next
    case False
    then have "2 \<le> length p" by simp
    from nearestPointOnLine_props[OF this, of coords]
    have "np_index (nearestPointOnLine coords p) + 1 < length p" by blast
    from tangentBearing_in_range[OF this] Cons False show ?thesis
      by (simp add: Let_def)
  qed
qed

lemma trainBearing_Some:
  assumes "storeOk st"
  shows "\<exists>b. trainBearing rp st train coords = Some b"
proof (cases "trainAnimations st (trainId train)")
  case None
  then show ?thesis
    using fallbackBearing_Some by (simp add: trainBearing_def Let_def split: option.splits)
next
  case (Some a)
  show ?thesis
  proof (cases "animPath a")
    case None
    with Some show ?thesis
      using fallbackBearing_Some by (simp add: trainBearing_def Let_def split: option.splits)
  next
    case p: (Some p)
    from assms Some have "animOk a" unfolding storeOk_def by blast
    with p have "2 \<le> length (pi_path p)"
      by (simp add: animOk_def pathOk_def)
    from trainBearing_live[OF Some p this] show ?thesis by simp
  qed
qed

lemma trainCoords_ok:
  assumes "storeOk st"
  shows "\<exists>c st'. trainCoords now st train = Some (c, st') \<and> storeOk st'"
proof (cases "trainAnimations st (trainId train)")
  case None
  then show ?thesis
    using assms by (simp add: trainCoords_def Let_def storeOk_positions)
next
  case (Some a)
  with assms have "animOk a" by (auto simp: storeOk_def)
  from sampleAnimation_Some[OF this, of now] obtain c where "sampleAnimation now a = Some c" ..
  then show ?thesis
    using Some assms by (auto simp: trainCoords_def intro: storeOk_delete)
qed

lemma animateTrain_ok:
  assumes "storeOk st"
  shows "\<exists>f st'. animateTrain rp now st train = Some (f, st') \<and> storeOk st' \<and>
           f_id f = trainId train"
proof -
  from trainCoords_ok[OF assms, of now train] obtain c st'
    where tc: "trainCoords now st train = Some (c, st')" and ok: "storeOk st'" by blast
  from trainBearing_Some[OF ok, of rp train c] obtain b
    where "trainBearing rp st' train c = Some b" ..
  with tc ok show ?thesis by (simp add: animateTrain_def)
qed

lemma animate_ok:
  "storeOk st \<Longrightarrow>
   \<exists>fs st'. animate rp now st trains = Some (fs, st') \<and> storeOk st' \<and>
     map f_id fs = map trainId trains"
proof (induction trains arbitrary: st)
  case Nil
  then show ?case by simp
next
  case (Cons t ts)
  from animateTrain_ok[OF Cons.prems, of rp now t] obtain f st1
    where a: "animateTrain rp now st t = Some (f, st1)" "storeOk st1" "f_id f = trainId t"
    by blast
  from Cons.IH[OF a(2)] obtain fs st2
    where b: "animate rp now st1 ts = Some (fs, st2)" "storeOk st2"
      "map f_id fs = map trainId ts" by blast
  from a b show ?case by simp
qed

lemma reachable_storeOk: "reachable rp st \<Longrightarrow> storeOk st"
proof (induction rule: reachable.induct)
  case reachable_init
  then show ?case by (simp add: storeOk_def emptyStore_def)
next
  case (reachable_reconcile st now trains st')
  from reconcile_ok[OF reachable_reconcile.IH, of rp now trains] reachable_reconcile.hyps(2)
  show ?case by auto
next
  case (reachable_animate st now trains fs st')
  from animate_ok[OF reachable_animate.IH, of rp now trains] reachable_animate.hyps(2)
  show ?case by auto
qed

lemma reconcile_single:
  "reconcile rp now [train] st = map_option (cleanup [train]) (reconcileTrain rp now st train)"
  by (simp add: reconcile_def split: option.splits)

lemma cleanup_present:
  "i \<in> trainId ` set trains \<Longrightarrow>
   trainAnimations (cleanup trains st) i = trainAnimations st i \<and>
   currentPositions (cleanup trains st) i = currentPositions st i"
  by (simp add: cleanup_def Let_def)

lemma cleanup_absent:
  "i \<notin> trainId ` set trains \<Longrightarrow> trainAnimations (cleanup trains st) i = None"
  by (simp add: cleanup_def Let_def)

lemma cleanup_no_animation:
  "trainAnimations st i = None \<Longrightarrow>
   currentPositions (cleanup trains st) i = currentPositions st i"
  by (simp add: cleanup_def Let_def)


lemma reconcileTrain_noop:
  assumes "negligible now st train"
  shows "reconcileTrain rp now st train = Some st"
proof -
  from assms obtain cur where cur: "startPosOf now st train = Some cur"
    and d: "distance cur (longitude train, latitude train) \<le> 0.00001"
    by (auto simp: negligible_def split: option.splits)
  from d show ?thesis unfolding reconcileTrain_cases[OF cur] by simp
qed

lemma reconcileTrain_frame:
  assumes "reconcileTrain rp now st train = Some st'" "trainId train \<noteq> i"
  shows "trainAnimations st' i = trainAnimations st i \<and>
         currentPositions st' i = currentPositions st i"
proof -
  from assms(1) obtain sp where sp: "startPosOf now st train = Some sp \<or> unchanged st train"
    by (auto simp: reconcileTrain_def Let_def split: option.splits if_splits)
  show ?thesis
  proof (cases "unchanged st train")
    case True
    with assms(1) show ?thesis by (simp add: reconcileTrain_def Let_def)
  next
    case False
    with sp have "startPosOf now st train = Some sp" by simp
    from assms(1)[unfolded reconcileTrain_cases[OF this]] assms(2) show ?thesis
      by (auto split: if_splits)
  qed
qed

lemma startPosOf_cong:
  "trainAnimations st (trainId t) = trainAnimations st2 (trainId t) \<Longrightarrow>
   currentPositions st (trainId t) = currentPositions st2 (trainId t) \<Longrightarrow>
   startPosOf now st t = startPosOf now st2 t"
  by (simp add: startPosOf_def split: option.splits)

lemma reconcileTrains_negligible:
  "reconcileTrains rp now st trains = Some st' \<Longrightarrow>
   trainAnimations st i = trainAnimations st0 i \<Longrightarrow>
   currentPositions st i = currentPositions st0 i \<Longrightarrow>
   \<forall>t\<in>set trains. trainId t = i \<longrightarrow> negligible now st0 t \<Longrightarrow>
   trainAnimations st' i = trainAnimations st0 i \<and>
   currentPositions st' i = currentPositions st0 i"
proof (induction trains arbitrary: st)
  case Nil
  then show ?case by simp
next
  case (Cons t ts)
  from Cons.prems(1) obtain st1 where st1: "reconcileTrain rp now st t = Some st1"
    and rest: "reconcileTrains rp now st1 ts = Some st'"
    by (auto split: option.splits)
  have "trainAnimations st1 i = trainAnimations st0 i \<and>
        currentPositions st1 i = currentPositions st0 i"
  proof (cases "trainId t = i")
    case True
    with Cons.prems(4) have "negligible now st0 t" by simp
    moreover have "startPosOf now st t = startPosOf now st0 t"
      using Cons.prems(2,3) True by (intro startPosOf_cong) simp_all
    ultimately have "negligible now st t" by (simp add: negligible_def)
    from reconcileTrain_noop[OF this, of rp] st1 have "st1 = st" by simp
    with Cons.prems(2,3) show ?thesis by simp
  next
    case False
    from reconcileTrain_frame[OF st1 False] Cons.prems(2,3) show ?thesis by simp
  qed
  with Cons.IH[OF rest] Cons.prems(4) show ?case by simp
qed

lemma sqrt_hundredth: "sqrt (1 / 10000) = 1 / 100"
  by (rule real_sqrt_unique) (simp_all add: power2_eq_square)

lemma reachable_example:
  fixes rp :: routePaths and X1 X2 :: Train
  defines "rp \<equiv> [''L'' \<mapsto> [[(0, 0), (4, 0)]]]"
    and "X1 \<equiv> \<lparr>trainId = ''X'', routeId = ''L'', latitude = 0, longitude = 1,
                trainStatus = IN_TRANSIT, currentStopId = None\<rparr>"
    and "X2 \<equiv> \<lparr>trainId = ''X'', routeId = ''L'', latitude = 0, longitude = 101 / 100,
                trainStatus = IN_TRANSIT, currentStopId = None\<rparr>"
  shows "\<exists>fs st1 st2.
    animate rp 0 emptyStore [X1] = Some (fs, st1) \<and>
    reconcile rp 5000 [X2] st1 = Some st2 \<and>
    reachable rp st2 \<and>
    currentPositions st2 ''X'' = Some (1, 0) \<and>
    trainAnimations st2 ''X'' =
      Some \<lparr>startPos = (1, 0), endPos = (101 / 100, 0), startTime = 5000, animRouteId = ''L'',
            animPath = Some \<lparr>pi_path = [(0, 0), (4, 0)], pi_startIndex = 0, pi_startT = 1 / 4,
                              pi_endIndex = 0, pi_endT = 101 / 400\<rparr>\<rparr>"
proof -
  define st1 where "st1 = emptyStore\<lparr>currentPositions := (currentPositions emptyStore)(''X'' \<mapsto> (1, 0))\<rparr>"
  have tc: "trainCoords 0 emptyStore X1 = Some ((1, 0), st1)"
    by (simp add: trainCoords_def emptyStore_def X1_def st1_def Let_def)
  have tb: "trainBearing rp st1 X1 (1, 0) = Some None"
    by (simp add: trainBearing_def st1_def emptyStore_def X1_def getDirectionFromStopId_def)
  have an: "animate rp 0 emptyStore [X1] =
      Some ([\<lparr>f_id = ''X'', f_routeId = ''L'', f_status = IN_TRANSIT, f_coordinates = (1, 0),
              f_bearing = None, f_direction = None\<rparr>], st1)"
    by (simp add: animateTrain_def tc tb) (simp add: X1_def getDirectionFromStopId_def)
  have sp: "startPosOf 5000 st1 X2 = Some (1, 0)"
    by (simp add: startPosOf_def st1_def emptyStore_def X2_def)
  have un: "\<not> unchanged st1 X2"
    by (simp add: unchanged_def st1_def emptyStore_def X2_def)
  have d: "distance (1, 0) (longitude X2, latitude X2) = 1 / 100"
    by (simp add: X2_def distance_eval sqrt_hundredth)
  have n1: "nearestPointOnLine (1, 0) [(0, 0), (4, 0)]
      = \<lparr>np_point = (1, 0), np_index = 0, np_t = 1 / 4\<rparr>"
    and n2: "nearestPointOnLine (101 / 100, 0) [(0, 0), (4, 0)]
      = \<lparr>np_point = (101 / 100, 0), np_index = 0, np_t = 101 / 400\<rparr>"
    by (simp_all add: nearestPointOnLine_two clampedT_eval along_eval)
  have fp: "findPathBetweenPoints rp ''L'' (1, 0) (101 / 100, 0) =
      Some \<lparr>pi_path = [(0, 0), (4, 0)], pi_startIndex = 0, pi_startT = 1 / 4,
            pi_endIndex = 0, pi_endT = 101 / 400\<rparr>"
    by (simp add: findPathBetweenPoints_resolve resolve_def pathsFor_def rp_def n1 n2
        resolved_def distance_eval)
  define a where "a = \<lparr>startPos = (1, 0), endPos = (101 / 100, 0), startTime = 5000,
      animRouteId = ''L'',
      animPath = Some \<lparr>pi_path = [(0, 0), (4, 0)], pi_startIndex = 0, pi_startT = 1 / 4,
                        pi_endIndex = 0, pi_endT = 101 / 400\<rparr>\<rparr>"
  define st2 where "st2 = st1\<lparr>trainAnimations := (trainAnimations st1)(''X'' \<mapsto> a)\<rparr>"
  have rt: "reconcileTrain rp 5000 st1 X2 = Some st2"
    unfolding reconcileTrain_cases[OF sp] using un d fp by (simp add: X2_def st2_def a_def)
  have rc: "reconcile rp 5000 [X2] st1 = Some (cleanup [X2] st2)"
    by (simp add: reconcile_single rt)
  have "''X'' \<in> trainId ` set [X2]" by (simp add: X2_def)
  from cleanup_present[OF this, of st2]
  have "currentPositions (cleanup [X2] st2) ''X'' = Some (1, 0)"
    "trainAnimations (cleanup [X2] st2) ''X'' = Some a"
    by (simp_all add: st2_def st1_def emptyStore_def)
  moreover have "reachable rp (cleanup [X2] st2)"
    by (rule reachable_reconcile[OF reachable_animate[OF reachable_init an] rc])
  ultimately show ?thesis using an rc unfolding a_def by blast
qed


lemma distance_le:
  "0 \<le> r \<Longrightarrow> (fst a - fst b) * (fst a - fst b) + (snd a - snd b) * (snd a - snd b) \<le> r * r \<Longrightarrow>
   distance a b \<le> r"
  by (simp add: distance_def Let_def real_le_lsqrt power2_eq_square)



lemma nearestPointOnLine_short:
  "length line < 2 \<Longrightarrow>
   nearestPointOnLine point line = \<lparr>np_point = point, np_index = 0, np_t = 0\<rparr>"
  by (cases line) (simp_all add: nearestPointOnLine_def nearestInit_def)






text \<open>
  C2. For a train with an animation record, when the reported position is within
  0.00001 of the position of the animation at the current time, the callback leaves
  the store as it is. Over a whole batch in which every record of the train is
  negligible in this sense, the animation record and the cached position of the train
  are after the reconciliation what they were before.
\<close>

theorem negligible_move_noop:
  "(\<forall>anim cur.
      trainAnimations st (trainId train) = Some anim \<longrightarrow>
      sampleAnimation now anim = Some cur \<longrightarrow>
      distance cur (longitude train, latitude train) \<le> 0.00001 \<longrightarrow>
      reconcileTrain rp now st train = Some st) \<and>
   (\<forall>trains st' i.
      reconcile rp now trains st = Some st' \<longrightarrow>
      i \<in> trainId ` set trains \<longrightarrow>
      (\<forall>t\<in>set trains. trainId t = i \<longrightarrow> negligible now st t) \<longrightarrow>
      trainAnimations st' i = trainAnimations st i \<and>
      currentPositions st' i = currentPositions st i)"
proof (intro conjI allI impI)
  fix anim :: TrainAnimation and cur :: coord
  assume "trainAnimations st (trainId train) = Some anim" "sampleAnimation now anim = Some cur"
    "distance cur (longitude train, latitude train) \<le> 0.00001"
  then have "negligible now st train" by (simp add: negligible_def startPosOf_def)
  then show "reconcileTrain rp now st train = Some st" by (rule reconcileTrain_noop)
next
  fix trains :: "Train list" and st' :: store and i :: string
  assume rec: "reconcile rp now trains st = Some st'"
    and i: "i \<in> trainId ` set trains"
    and neg: "\<forall>t\<in>set trains. trainId t = i \<longrightarrow> negligible now st t"
  from rec obtain st1 where st1: "reconcileTrains rp now st trains = Some st1"
    and st': "st' = cleanup trains st1"
    by (auto simp: reconcile_def split: option.splits)
  from reconcileTrains_negligible[OF st1 refl refl neg]
  have "trainAnimations st1 i = trainAnimations st i \<and>
        currentPositions st1 i = currentPositions st i" .
  with cleanup_present[OF i, of st1] st'
  show "trainAnimations st' i = trainAnimations st i"
    "currentPositions st' i = currentPositions st i" by simp_all
qed

theorem negligible_move_noop_witness:
  "sampleAnimation 5000
     \<lparr>startPos = (1, 0), endPos = (101 / 100, 0), startTime = 5000, animRouteId = ''L'',
      animPath = Some \<lparr>pi_path = [(0, 0), (4, 0)], pi_startIndex = 0, pi_startT = 1 / 4,
                        pi_endIndex = 0, pi_endT = 101 / 400\<rparr>\<rparr> = Some (1, 0) \<and>
   distance (1, 0) (1 + 4 / 10000000, 0) \<le> 0.00001 \<and>
   reconcileTrain [''L'' \<mapsto> [[(0, 0), (4, 0)]]] 5000
     \<lparr>trainAnimations = [''X'' \<mapsto>
        \<lparr>startPos = (1, 0), endPos = (101 / 100, 0), startTime = 5000, animRouteId = ''L'',
         animPath = Some \<lparr>pi_path = [(0, 0), (4, 0)], pi_startIndex = 0, pi_startT = 1 / 4,
                           pi_endIndex = 0, pi_endT = 101 / 400\<rparr>\<rparr>],
      currentPositions = [''X'' \<mapsto> (1 / 2, 0)]\<rparr>
     \<lparr>trainId = ''X'', routeId = ''L'', latitude = 0, longitude = 1 + 4 / 10000000,
      trainStatus = IN_TRANSIT, currentStopId = None\<rparr>
   = Some \<lparr>trainAnimations = [''X'' \<mapsto>
        \<lparr>startPos = (1, 0), endPos = (101 / 100, 0), startTime = 5000, animRouteId = ''L'',
         animPath = Some \<lparr>pi_path = [(0, 0), (4, 0)], pi_startIndex = 0, pi_startT = 1 / 4,
                           pi_endIndex = 0, pi_endT = 101 / 400\<rparr>\<rparr>],
      currentPositions = [''X'' \<mapsto> (1 / 2, 0)]\<rparr> \<and>
   (\<exists>st'. reconcile [''L'' \<mapsto> [[(0, 0), (4, 0)]]] 5000
       [\<lparr>trainId = ''X'', routeId = ''L'', latitude = 0, longitude = 1 + 4 / 10000000,
         trainStatus = IN_TRANSIT, currentStopId = None\<rparr>]
       \<lparr>trainAnimations = [''X'' \<mapsto>
        \<lparr>startPos = (1, 0), endPos = (101 / 100, 0), startTime = 5000, animRouteId = ''L'',
         animPath = Some \<lparr>pi_path = [(0, 0), (4, 0)], pi_startIndex = 0, pi_startT = 1 / 4,
                           pi_endIndex = 0, pi_endT = 101 / 400\<rparr>\<rparr>],
        currentPositions = [''X'' \<mapsto> (1 / 2, 0)]\<rparr> = Some st' \<and>
      trainAnimations st' ''X'' = Some
        \<lparr>startPos = (1, 0), endPos = (101 / 100, 0), startTime = 5000, animRouteId = ''L'',
         animPath = Some \<lparr>pi_path = [(0, 0), (4, 0)], pi_startIndex = 0, pi_startT = 1 / 4,
                           pi_endIndex = 0, pi_endT = 101 / 400\<rparr>\<rparr> \<and>
      currentPositions st' ''X'' = Some (1 / 2, 0))"
proof -
  define rp :: routePaths where "rp = [''L'' \<mapsto> [[(0, 0), (4, 0)]]]"
  define a where "a = \<lparr>startPos = (1, 0), endPos = (101 / 100, 0), startTime = 5000,
      animRouteId = ''L'',
      animPath = Some \<lparr>pi_path = [(0, 0), (4, 0)], pi_startIndex = 0, pi_startT = 1 / 4,
                        pi_endIndex = 0, pi_endT = 101 / 400\<rparr>\<rparr>"
  define st where "st = \<lparr>trainAnimations = [''X'' \<mapsto> a],
      currentPositions = [''X'' \<mapsto> (1 / 2, 0 :: real)]\<rparr>"
  define T where "T = \<lparr>trainId = ''X'', routeId = ''L'', latitude = 0,
      longitude = 1 + 4 / 10000000, trainStatus = IN_TRANSIT, currentStopId = None\<rparr>"
  have sample: "sampleAnimation 5000 a = Some (1, 0)"
    using pointAlongLine_start[of 0 "[(0, 0), (4, 0)]" 0 "1 / 4" "101 / 400"]
    by (simp add: sampleAnimation_def a_def animProgress_def ANIMATION_DURATION_def
        easeOutCubic_def pointOnSegment_along along_eval)
  have near: "distance (1, 0) (1 + 4 / 10000000, 0) \<le> 0.00001"
    by (rule distance_le) simp_all
  have h: "trainAnimations st (trainId T) = Some a"
    "distance (1, 0) (longitude T, latitude T) \<le> 0.00001" "trainId T = ''X''"
    using near by (simp_all add: st_def T_def)
  note inst = negligible_move_noop [of st T 5000 rp]
  from inst h(1,2) sample have step: "reconcileTrain rp 5000 st T = Some st" by blast
  then have rc: "reconcile rp 5000 [T] st = Some (cleanup [T] st)"
    by (simp add: reconcile_single)
  have neg: "\<forall>t\<in>set [T]. trainId t = ''X'' \<longrightarrow> negligible 5000 st t"
    using h sample by (simp add: negligible_def startPosOf_def)
  have "''X'' \<in> trainId ` set [T]" by (simp add: T_def)
  with inst rc neg have "trainAnimations (cleanup [T] st) ''X'' = trainAnimations st ''X'' \<and>
      currentPositions (cleanup [T] st) ''X'' = currentPositions st ''X''" by blast
  then have "trainAnimations (cleanup [T] st) ''X'' = Some a \<and>
      currentPositions (cleanup [T] st) ''X'' = Some (1 / 2, 0)" by (simp add: st_def)
  with rc have batch: "\<exists>st'. reconcile rp 5000 [T] st = Some st' \<and>
      trainAnimations st' ''X'' = Some a \<and> currentPositions st' ''X'' = Some (1 / 2, 0)"
    by blast
  from sample near step batch show ?thesis
    unfolding rp_def st_def T_def a_def by blast
qed

text \<open>
  C9. On a polyline of at least two points \<^verbatim>\<open>nearestPointOnLine\<close> returns a
  projection on a segment of the polyline; on a shorter one it returns the query
  point itself with index 0 (it never throws), and the search of
  \<^verbatim>\<open>findPathBetweenPoints\<close> skips such a polyline. A path returned by the resolver
  has at least two points and indices in range, so every animation record of a store
  reached from the empty store has a path of at least two points, and interpolating
  along it returns a point.
\<close>

theorem degenerate_polylines_skipped:
  "(2 \<le> length line \<longrightarrow>
      np_index (nearestPointOnLine point line) + 1 < length line \<and>
      np_point (nearestPointOnLine point line) =
        pointOnSegment line (np_index (nearestPointOnLine point line))
          (np_t (nearestPointOnLine point line))) \<and>
   (length line < 2 \<longrightarrow>
      nearestPointOnLine point line = \<lparr>np_point = point, np_index = 0, np_t = 0\<rparr> \<and>
      findStep start endp b line = b) \<and>
   (\<forall>r. findPathBetweenPoints rp rid start endp = Some r \<longrightarrow>
      2 \<le> length (pi_path r) \<and> pi_path r \<in> set (pathsFor rp rid) \<and>
      pi_startIndex r + 1 < length (pi_path r) \<and> pi_endIndex r + 1 < length (pi_path r)) \<and>
   (\<forall>st i a p now. reachable rp st \<longrightarrow> trainAnimations st i = Some a \<longrightarrow>
      animPath a = Some p \<longrightarrow>
      2 \<le> length (pi_path p) \<and> (\<exists>c. sampleAnimation now a = Some c))"
proof (intro conjI allI impI)
  assume len: "2 \<le> length line"
  from nearestPointOnLine_props[OF len, of point]
  show "np_index (nearestPointOnLine point line) + 1 < length line"
    "np_point (nearestPointOnLine point line) =
        pointOnSegment line (np_index (nearestPointOnLine point line))
          (np_t (nearestPointOnLine point line))"
    by (simp_all add: pointOnSegment_along)
next
  assume "length line < 2"
  then show "nearestPointOnLine point line = \<lparr>np_point = point, np_index = 0, np_t = 0\<rparr>"
    "findStep start endp b line = b"
    by (simp_all add: nearestPointOnLine_short findStep_short)
next
  fix r :: pathInfo
  assume "findPathBetweenPoints rp rid start endp = Some r"
  from findPathBetweenPoints_ok[OF this]
  show "2 \<le> length (pi_path r)" "pi_path r \<in> set (pathsFor rp rid)"
    "pi_startIndex r + 1 < length (pi_path r)" "pi_endIndex r + 1 < length (pi_path r)"
    by (simp_all add: pathOk_def)
next
  fix st :: store and i :: string and a :: TrainAnimation and p :: pathInfo and now :: real
  assume r: "reachable rp st" and a: "trainAnimations st i = Some a" and p: "animPath a = Some p"
  from reachable_storeOk[OF r] a have ok: "animOk a" unfolding storeOk_def by blast
  with p show "2 \<le> length (pi_path p)" by (simp add: animOk_def pathOk_def)
  from sampleAnimation_Some[OF ok] show "\<exists>c. sampleAnimation now a = Some c" .
qed

theorem degenerate_polylines_skipped_witness:
  "2 \<le> length [(0, 0), (4, 0) :: coord] \<and>
   np_index (nearestPointOnLine (1, 1) [(0, 0), (4, 0)]) + 1 < length [(0, 0), (4, 0) :: coord] \<and>
   length [(0, 0) :: coord] < 2 \<and>
   nearestPointOnLine (1, 1) [(0, 0)] = \<lparr>np_point = (1, 1), np_index = 0, np_t = 0\<rparr> \<and>
   findStep (1, 0) (2, 0) bestInit [(0, 0)] = bestInit \<and>
   findPathBetweenPoints [''L'' \<mapsto> [[(0, 0)], [(0, 0), (4, 0)]]] ''L'' (1, 0) (2, 0)
     = Some \<lparr>pi_path = [(0, 0), (4, 0)], pi_startIndex = 0, pi_startT = 1 / 4,
             pi_endIndex = 0, pi_endT = 1 / 2\<rparr> \<and>
   2 \<le> length (pi_path \<lparr>pi_path = [(0, 0), (4, 0)], pi_startIndex = 0, pi_startT = 1 / 4,
             pi_endIndex = 0, pi_endT = 1 / 2\<rparr>) \<and>
   (\<exists>st a p c. reachable [''L'' \<mapsto> [[(0, 0), (4, 0)]]] st \<and>
      trainAnimations st ''X'' = Some a \<and> animPath a = Some p \<and>
      pi_path p = [(0, 0), (4, 0)] \<and> 2 \<le> length (pi_path p) \<and>
      sampleAnimation 7000 a = Some c)"
proof -
  let ?rp = "[''L'' \<mapsto> [[(0, 0)], [(0, 0), (4, 0)]]] :: routePaths"
  let ?r = "\<lparr>pi_path = [(0, 0), (4, 0)], pi_startIndex = 0, pi_startT = 1 / 4,
             pi_endIndex = 0, pi_endT = 1 / 2\<rparr>"
  have l1: "2 \<le> length [(0, 0), (4, 0) :: coord]" and l2: "length [(0, 0) :: coord] < 2"
    by simp_all
  have n1: "nearestPointOnLine (1, 0) [(0, 0), (4, 0)]
      = \<lparr>np_point = (1, 0), np_index = 0, np_t = 1 / 4\<rparr>"
    and n2: "nearestPointOnLine (2, 0) [(0, 0), (4, 0)]
      = \<lparr>np_point = (2, 0), np_index = 0, np_t = 1 / 2\<rparr>"
    by (simp_all add: nearestPointOnLine_two clampedT_eval along_eval)
  have fp: "findPathBetweenPoints ?rp ''L'' (1, 0) (2, 0) = Some ?r"
    by (simp add: findPathBetweenPoints_resolve resolve_def pathsFor_def n1 n2
        resolved_def distance_eval)
  from degenerate_polylines_skipped [of "[(0, 0), (4, 0)]" "(1, 1)" "(1, 0)" "(2, 0)" bestInit ?rp "''L''"] l1
  have a: "np_index (nearestPointOnLine (1, 1) [(0, 0), (4, 0)]) + 1 < length [(0, 0), (4, 0) :: coord]"
    by blast
  from degenerate_polylines_skipped [of "[(0, 0)]" "(1, 1)" "(1, 0)" "(2, 0)" bestInit ?rp "''L''"] l2
  have b: "nearestPointOnLine (1, 1) [(0, 0)] = \<lparr>np_point = (1, 1), np_index = 0, np_t = 0\<rparr>"
    "findStep (1, 0) (2, 0) bestInit [(0, 0)] = bestInit"
    by blast+
  from degenerate_polylines_skipped [of "[(0, 0)]" "(1, 1)" "(1, 0)" "(2, 0)" bestInit ?rp "''L''"] fp
  have c: "2 \<le> length (pi_path ?r)" by blast
  obtain st2 where r: "reachable [''L'' \<mapsto> [[(0, 0), (4, 0)]]] st2"
    and a2: "trainAnimations st2 ''X'' =
      Some \<lparr>startPos = (1, 0), endPos = (101 / 100, 0), startTime = 5000, animRouteId = ''L'',
            animPath = Some \<lparr>pi_path = [(0, 0), (4, 0)], pi_startIndex = 0, pi_startT = 1 / 4,
                              pi_endIndex = 0, pi_endT = 101 / 400\<rparr>\<rparr>"
    using reachable_example by blast
  define p where "p = \<lparr>pi_path = [(0, 0), (4, 0)], pi_startIndex = 0, pi_startT = 1 / 4,
                              pi_endIndex = 0, pi_endT = 101 / 400\<rparr>"
  define an where "an = \<lparr>startPos = (1, 0), endPos = (101 / 100, 0), startTime = 5000,
     animRouteId = ''L'', animPath = Some p\<rparr>"
  have a2': "trainAnimations st2 ''X'' = Some an" "animPath an = Some p"
    using a2 by (simp_all add: an_def p_def)
  from degenerate_polylines_skipped
    [of "[(0, 0)]" "(1, 1)" "(1, 0)" "(2, 0)" bestInit "[''L'' \<mapsto> [[(0, 0), (4, 0)]]]" "''L''"]
    r a2'
  have "2 \<le> length (pi_path p) \<and> (\<exists>c. sampleAnimation 7000 an = Some c)" by blast
  then obtain c' where "2 \<le> length (pi_path p)" "sampleAnimation 7000 an = Some c'" by blast
  with r a2' have d: "\<exists>st a p c. reachable [''L'' \<mapsto> [[(0, 0), (4, 0)]]] st \<and>
      trainAnimations st ''X'' = Some a \<and> animPath a = Some p \<and>
      pi_path p = [(0, 0), (4, 0)] \<and> 2 \<le> length (pi_path p) \<and>
      sampleAnimation 7000 a = Some c"
    by (intro exI[of _ st2] exI[of _ an] exI[of _ p] exI[of _ c']) (simp add: p_def)
  from l1 l2 a b fp c d show ?thesis by blast
qed

text \<open>
  C8. The clean-up visits only the ids that have an animation record. A train seen in
  one batch and rendered once has a cached position and no animation record; when
  the next batch is empty, the reconciliation leaves its cached position in
  \<^verbatim>\<open>currentPositions\<close>.
\<close>

theorem cleanup_keeps_position_of_absent_train:
  "\<exists>st1 fs st2 st3.
     reconcile Map.empty 0
       [\<lparr>trainId = ''X'', routeId = ''L'', latitude = 40.75, longitude = - 73.98,
         trainStatus = STOPPED, currentStopId = None\<rparr>] emptyStore = Some st1 \<and>
     animate Map.empty 16 st1
       [\<lparr>trainId = ''X'', routeId = ''L'', latitude = 40.75, longitude = - 73.98,
         trainStatus = STOPPED, currentStopId = None\<rparr>] = Some (fs, st2) \<and>
     reconcile Map.empty 5000 [] st2 = Some st3 \<and>
     trainAnimations st3 ''X'' = None \<and>
     currentPositions st3 ''X'' = Some (- 73.98, 40.75)"
proof -
  define T where "T = \<lparr>trainId = ''X'', routeId = ''L'', latitude = 40.75, longitude = - 73.98,
         trainStatus = STOPPED, currentStopId = None\<rparr>"
  define st2 where "st2 = (cleanup [T] emptyStore)\<lparr>currentPositions :=
     (currentPositions (cleanup [T] emptyStore))(''X'' \<mapsto> (- 73.98, 40.75))\<rparr>"
  have sp: "startPosOf 0 emptyStore T = Some (longitude T, latitude T)"
    by (simp add: startPosOf_def emptyStore_def T_def)
  have un: "\<not> unchanged emptyStore T" by (simp add: unchanged_def emptyStore_def)
  have d: "distance (longitude T, latitude T) (longitude T, latitude T) = 0"
    by (simp add: distance_def)
  have rt: "reconcileTrain Map.empty 0 emptyStore T = Some emptyStore"
    unfolding reconcileTrain_cases[OF sp] using un d by simp
  have r1: "reconcile Map.empty 0 [T] emptyStore = Some (cleanup [T] emptyStore)"
    by (simp add: reconcile_single rt)
  have e: "trainAnimations (cleanup [T] emptyStore) ''X'' = None"
    "currentPositions (cleanup [T] emptyStore) ''X'' = None"
    by (simp_all add: cleanup_def emptyStore_def Let_def)
  have tc: "trainCoords 16 (cleanup [T] emptyStore) T = Some ((- 73.98, 40.75), st2)"
    using e by (simp add: trainCoords_def Let_def T_def st2_def)
  have tb: "trainBearing Map.empty st2 T (- 73.98, 40.75) = Some None"
    using e by (simp add: trainBearing_def st2_def T_def getDirectionFromStopId_def)
  have an: "\<exists>fs. animate Map.empty 16 (cleanup [T] emptyStore) [T] = Some (fs, st2)"
    using tc tb by (simp add: animateTrain_def)
  have r2: "reconcile Map.empty 5000 [] st2 = Some (cleanup [] st2)"
    by (simp add: reconcile_def)
  have f: "trainAnimations (cleanup [] st2) ''X'' = None"
    "currentPositions (cleanup [] st2) ''X'' = Some (- 73.98, 40.75)"
    using e by (simp_all add: cleanup_def st2_def Let_def)
  from r1 an r2 f show ?thesis unfolding T_def by blast
qed

text \<open>What does hold for a train absent from the batch: it has no animation record, and the
  frame renders the trains of its batch only.\<close>

lemma reconcile_removes_animation:
  "reconcile rp now trains st = Some st' \<Longrightarrow> i \<notin> trainId ` set trains \<Longrightarrow>
   trainAnimations st' i = None"
  by (auto simp: reconcile_def cleanup_absent split: option.splits)

lemma animate_ids:
  "animate rp now st trains = Some (fs, st') \<Longrightarrow> map f_id fs = map trainId trains"
proof (induction trains arbitrary: st fs)
  case Nil
  then show ?case by simp
next
  case (Cons t ts)
  from Cons.prems obtain f st1 fs1 where
    f: "animateTrain rp now st t = Some (f, st1)"
    and r: "animate rp now st1 ts = Some (fs1, st')" and fs: "fs = f # fs1"
    by (auto split: option.splits prod.splits)
  from f have "f_id f = trainId t"
    by (auto simp: animateTrain_def split: option.splits prod.splits)
  with Cons.IH[OF r] fs show ?case by simp
qed

end
